theory Spec2Isabelle
  imports Complex_Main "HOL-Library.List_Lexorder" "HOL-Library.Char_ord"
    "HOL-Library.Product_Lexorder"
begin

section \<open>Conventions of the embedding\<close>

text \<open>
  The development embeds the signal aggregation and threshold optimisation code of
  \<^verbatim>\<open>backtester.py\<close>, \<^verbatim>\<open>signal_generator.py\<close> and \<^verbatim>\<open>config.py\<close>.

  \<^item> A Python \<^verbatim>\<open>float\<close> is idealised as an exact rational (\<^typ>\<open>rat\<close>): rounding error,
    infinities and NaN are outside the model. Only comparisons and the four arithmetic
    operations are used on them by the code embedded here.
  \<^item> A Python \<^verbatim>\<open>int\<close> that is read from the input is an \<^typ>\<open>int\<close>; a counter that starts
    at \<^verbatim>\<open>0\<close> and is only incremented is a \<^typ>\<open>nat\<close>.
  \<^item> A Python \<^verbatim>\<open>str\<close> is a \<^typ>\<open>string\<close>, compared lexicographically by character code, as
    Python compares strings.
  \<^item> A Python tuple is a pair, compared lexicographically, as Python compares tuples.
  \<^item> A dict whose fields are fixed is a record; a dict used as a finite mapping is the list
    of its items in insertion order, its keys pairwise distinct.
  \<^item> An exception is a value: a function that can raise returns \<open>py_error + 'a\<close>.
  \<^item> Logging is not modelled. The collaborators of the code (news collection, the
    sentiment classifier, the price download) are parameters.
\<close>

section \<open>Python primitives\<close>

datatype py_error = KeyError | ValueError | IndexError

text \<open>\<^verbatim>\<open>d[k]\<close> on a dict.\<close>

definition dict_get :: "('k \<times> 'v) list \<Rightarrow> 'k \<Rightarrow> py_error + 'v" where
  "dict_get d k = (case map_of d k of None \<Rightarrow> Inl KeyError | Some v \<Rightarrow> Inr v)"

text \<open>\<^verbatim>\<open>d.get(k, default)\<close>.\<close>

definition dict_get_default :: "('k \<times> 'v) list \<Rightarrow> 'k \<Rightarrow> 'v \<Rightarrow> 'v" where
  "dict_get_default d k dflt = (case map_of d k of None \<Rightarrow> dflt | Some v \<Rightarrow> v)"

text \<open>\<^verbatim>\<open>d[k] = v\<close>: an existing key keeps its place, a new key goes last.\<close>

fun dict_set :: "('k \<times> 'v) list \<Rightarrow> 'k \<Rightarrow> 'v \<Rightarrow> ('k \<times> 'v) list" where
  "dict_set [] k v = [(k, v)]"
| "dict_set ((k', v') # d) k v = (if k' = k then (k, v) # d else (k', v') # dict_set d k v)"

text \<open>\<^verbatim>\<open>d[k].append(v)\<close> on a \<^verbatim>\<open>defaultdict(list)\<close>.\<close>

fun dict_append :: "('k \<times> 'v list) list \<Rightarrow> 'k \<Rightarrow> 'v \<Rightarrow> ('k \<times> 'v list) list" where
  "dict_append [] k v = [(k, [v])]"
| "dict_append ((k', vs) # d) k v =
     (if k' = k then (k', vs @ [v]) # d else (k', vs) # dict_append d k v)"

text \<open>\<^verbatim>\<open>xs.index(x)\<close>: the first position of \<open>x\<close>, \<^verbatim>\<open>ValueError\<close> when there is none.\<close>

fun list_index :: "'a list \<Rightarrow> 'a \<Rightarrow> py_error + nat" where
  "list_index [] x = Inl ValueError"
| "list_index (y # ys) x =
     (if y = x then Inr 0
      else (case list_index ys x of Inl e \<Rightarrow> Inl e | Inr i \<Rightarrow> Inr (Suc i)))"

text \<open>
  \<^verbatim>\<open>round(x, ndigits)\<close> on the idealised floats: to the nearest multiple of
  \<open>10\<^sup>-\<^sup>n\<close>, a tie to the even one.
\<close>

definition py_round :: "rat \<Rightarrow> nat \<Rightarrow> rat" where
  "py_round x ndigits =
     (let y = x * 10 ^ ndigits;
          f = \<lfloor>y\<rfloor>;
          d = y - of_int f;
          n = (if d < 1 / 2 then f else if 1 / 2 < d then f + 1
               else if even f then f else f + 1)
      in of_int n / 10 ^ ndigits)"

section \<open>Threshold Evaluator (\<^verbatim>\<open>backtester.evaluate_thresholds\<close>)\<close>

text \<open>One row of the table built by \<^verbatim>\<open>build_backtest_table\<close>.\<close>

record row =
  ticker :: string
  date :: string
  sentiment_score :: rat
  actual_change_pct :: rat
  article_count :: int

text \<open>The six counters of the loop of \<^verbatim>\<open>evaluate_thresholds\<close>.\<close>

record counts =
  tp_buy :: nat
  fp_buy :: nat
  tp_sell :: nat
  fp_sell :: nat
  hold_count :: nat
  total_signals :: nat

text \<open>The dict returned by \<^verbatim>\<open>evaluate_thresholds\<close>: the counters and five more keys.\<close>

record eval_result = counts +
  buy_threshold :: rat
  sell_threshold :: rat
  min_articles :: int
  accuracy :: rat
  correct :: nat

definition init_counts :: counts where
  "init_counts =
     \<lparr>tp_buy = 0, fp_buy = 0, tp_sell = 0, fp_sell = 0, hold_count = 0, total_signals = 0\<rparr>"

text \<open>The body of \<^verbatim>\<open>for row in table\<close>; \<^verbatim>\<open>continue\<close> is the first branch.\<close>

definition eval_row :: "rat \<Rightarrow> rat \<Rightarrow> int \<Rightarrow> counts \<Rightarrow> row \<Rightarrow> counts" where
  "eval_row buy_thresh sell_thresh min_arts c r =
     (let score = sentiment_score r;
          change = actual_change_pct r;
          count = article_count r
      in if count < min_arts then c\<lparr>hold_count := hold_count c + 1\<rparr>
         else if score > buy_thresh then
           (let c1 = c\<lparr>total_signals := total_signals c + 1\<rparr>
            in if change > 0 then c1\<lparr>tp_buy := tp_buy c1 + 1\<rparr>
               else c1\<lparr>fp_buy := fp_buy c1 + 1\<rparr>)
         else if score < sell_thresh then
           (let c1 = c\<lparr>total_signals := total_signals c + 1\<rparr>
            in if change < 0 then c1\<lparr>tp_sell := tp_sell c1 + 1\<rparr>
               else c1\<lparr>fp_sell := fp_sell c1 + 1\<rparr>)
         else c\<lparr>hold_count := hold_count c + 1\<rparr>)"

definition eval_loop :: "rat \<Rightarrow> rat \<Rightarrow> int \<Rightarrow> counts \<Rightarrow> row list \<Rightarrow> counts" where
  "eval_loop buy_thresh sell_thresh min_arts c table =
     foldl (eval_row buy_thresh sell_thresh min_arts) c table"

definition evaluate_thresholds :: "row list \<Rightarrow> rat \<Rightarrow> rat \<Rightarrow> int \<Rightarrow> eval_result" where
  "evaluate_thresholds table buy_thresh sell_thresh min_arts =
     (let c = eval_loop buy_thresh sell_thresh min_arts init_counts table;
          correct' = tp_buy c + tp_sell c;
          accuracy' = (if total_signals c > 0
                       then rat_of_nat correct' / rat_of_nat (total_signals c) else 0)
      in \<lparr>tp_buy = tp_buy c, fp_buy = fp_buy c, tp_sell = tp_sell c, fp_sell = fp_sell c,
          hold_count = hold_count c, total_signals = total_signals c,
          buy_threshold = buy_thresh, sell_threshold = sell_thresh,
          min_articles = min_arts, accuracy = accuracy', correct = correct'\<rparr>)"

section \<open>Threshold Sweeper (\<^verbatim>\<open>backtester.sweep_thresholds\<close>) and the selection\<close>

text \<open>\<^verbatim>\<open>[round(x * 0.05, 2) for x in range(1, 13)]\<close> and its negative twin.\<close>

definition buy_range :: "rat list" where
  "buy_range = [py_round (of_int x * (5 / 100)) 2. x \<leftarrow> [1..12]]"

definition sell_range :: "rat list" where
  "sell_range = [py_round (of_int (- x) * (5 / 100)) 2. x \<leftarrow> [1..12]]"

definition min_articles_options :: "int list" where
  "min_articles_options = [1, 2, 3, 5]"

text \<open>The three nested loops, each result appended to \<^verbatim>\<open>results\<close>.\<close>

definition sweep_thresholds :: "row list \<Rightarrow> eval_result list" where
  "sweep_thresholds table =
     [evaluate_thresholds table bt st min_art.
        min_art \<leftarrow> min_articles_options, bt \<leftarrow> buy_range, st \<leftarrow> sell_range]"

text \<open>\<^verbatim>\<open>lambda r: (r["accuracy"], r["total_signals"])\<close>.\<close>

definition viable_key :: "eval_result \<Rightarrow> rat \<times> nat" where
  "viable_key r = (accuracy r, total_signals r)"

text \<open>
  \<^verbatim>\<open>viable.sort(key=..., reverse=True)\<close>: Python's sort is stable, also with
  \<^verbatim>\<open>reverse=True\<close>: elements of equal key keep their order. Here as an insertion
  sort, descending by key.
\<close>

fun insort_desc :: "eval_result \<Rightarrow> eval_result list \<Rightarrow> eval_result list" where
  "insort_desc x [] = [x]"
| "insort_desc x (y # ys) =
     (if viable_key x < viable_key y then y # insort_desc x ys else x # y # ys)"

definition sort_desc :: "eval_result list \<Rightarrow> eval_result list" where
  "sort_desc xs = foldr insort_desc xs []"

text \<open>
  The selection of \<^verbatim>\<open>auto_tune\<close> (and, word for word, of \<^verbatim>\<open>main\<close>): the two filters, the
  sort and \<^verbatim>\<open>viable[0]\<close>. \<open>Inr None\<close> is the early \<^verbatim>\<open>return\<close> on an empty \<^verbatim>\<open>viable\<close>.
\<close>

definition select_optimal :: "eval_result list \<Rightarrow> py_error + eval_result option" where
  "select_optimal all_results =
     (let viable = filter (\<lambda>r. total_signals r \<ge> 3) all_results;
          viable = (if viable = [] then filter (\<lambda>r. total_signals r \<ge> 1) all_results
                    else viable)
      in if viable = [] then Inr None
         else (case sort_desc viable of
                 [] \<Rightarrow> Inl IndexError
               | optimal # _ \<Rightarrow> Inr (Some optimal)))"

section \<open>Price-Change Resolver (\<^verbatim>\<open>backtester.compute_next_day_change\<close>)\<close>

type_synonym price_dict = "(string \<times> rat) list"

text \<open>\<open>Inr None\<close> is Python's \<^verbatim>\<open>return None\<close>.\<close>

definition compute_next_day_change :: "price_dict \<Rightarrow> string \<Rightarrow> py_error + rat option" where
  "compute_next_day_change prices date_str =
     (let sorted_dates = sort (map fst prices);
          snapped =
            (if date_str \<notin> set sorted_dates
             then (let candidates = filter (\<lambda>d. d \<ge> date_str) sorted_dates
                   in case candidates of [] \<Rightarrow> None | d # _ \<Rightarrow> Some d)
             else Some date_str)
      in case snapped of
           None \<Rightarrow> Inr None
         | Some date_str \<Rightarrow>
            (case list_index sorted_dates date_str of
               Inl e \<Rightarrow> Inl e
             | Inr idx \<Rightarrow>
                if idx + 1 \<ge> length sorted_dates then Inr None
                else (case dict_get prices (sorted_dates ! idx) of
                        Inl e \<Rightarrow> Inl e
                      | Inr price_today \<Rightarrow>
                         (case dict_get prices (sorted_dates ! (idx + 1)) of
                            Inl e \<Rightarrow> Inl e
                          | Inr price_next \<Rightarrow>
                             if price_today = 0 then Inr None
                             else Inr (Some (((price_next - price_today) / price_today)
                                               * 100))))))"

text \<open>
  The resolver as the specification words it: the reference date itself when it is known,
  else the earliest known date on or after it; the next date is the earliest known date
  after that one.
\<close>

definition resolve_spec :: "price_dict \<Rightarrow> string \<Rightarrow> rat option" where
  "resolve_spec prices ref =
     (let known = map fst prices;
          on_or_after = filter (\<lambda>d. ref \<le> d) known
      in if on_or_after = [] then None
         else (let cur = (if ref \<in> set known then ref else Min (set on_or_after));
                   later = filter (\<lambda>d. cur < d) known
               in if later = [] then None
                  else (let nxt = Min (set later);
                            p_cur = the (map_of prices cur);
                            p_nxt = the (map_of prices nxt)
                        in if p_cur = 0 then None
                           else Some ((p_nxt - p_cur) / p_cur * 100))))"

section \<open>Configuration (\<^verbatim>\<open>config.py\<close>)\<close>

definition STOCKS :: "string list" where
  "STOCKS = [''AAPL'', ''MSFT'', ''GOOG'', ''AMZN'', ''TSLA'', ''NVDA'', ''META'', ''JPM'',
             ''V'', ''JNJ'']"

definition COMMODITIES :: "(string \<times> string) list" where
  "COMMODITIES = [(''Gold'', ''GC=F''), (''Oil'', ''CL=F''), (''Silver'', ''SI=F'')]"

definition CRYPTO :: "(string \<times> string) list" where
  "CRYPTO = [(''BTC'', ''BTC-USD''), (''ETH'', ''ETH-USD'')]"

text \<open>The dict display \<^verbatim>\<open>{**a, **b, **c}\<close> assigns the items of each part in turn.\<close>

definition ASSET_DISPLAY_NAMES :: "(string \<times> string) list" where
  "ASSET_DISPLAY_NAMES =
     foldl (\<lambda>d (k, v). dict_set d k v) []
       ([(s, s). s \<leftarrow> STOCKS] @ [(v, k). (k, v) \<leftarrow> COMMODITIES] @ [(v, k). (k, v) \<leftarrow> CRYPTO])"

definition ALL_TICKERS :: "string list" where
  "ALL_TICKERS = STOCKS @ map snd COMMODITIES @ map snd CRYPTO"

text \<open>
  The three module globals that \<^verbatim>\<open>auto_tune\<close> assigns and \<^verbatim>\<open>generate_signals\<close> reads: the
  live threshold configuration.
\<close>

record config =
  BUY_THRESHOLD :: rat
  SELL_THRESHOLD :: rat
  MIN_ARTICLES :: int

text \<open>The values \<^verbatim>\<open>config.py\<close> is shipped with.\<close>

definition shipped_config :: config where
  "shipped_config = \<lparr>BUY_THRESHOLD = 2 / 10, SELL_THRESHOLD = - (5 / 100), MIN_ARTICLES = 1\<rparr>"

section \<open>Articles and the sentiment score\<close>

text \<open>
  An article dict. The collectors always set \<^verbatim>\<open>title\<close>, \<^verbatim>\<open>ticker\<close> and \<^verbatim>\<open>published\<close>;
  \<^verbatim>\<open>sentiment\<close> and \<^verbatim>\<open>confidence\<close> are read with \<^verbatim>\<open>.get\<close> and may be absent. Of
  \<^verbatim>\<open>published\<close> the code reads \<^verbatim>\<open>strftime("%Y-%m-%d")\<close> only, which is what the field holds
  here.
\<close>

record article =
  art_title :: string
  art_ticker :: string
  art_published :: string
  art_sentiment :: "string option"
  art_confidence :: "rat option"

definition SENTIMENT_SCORES :: "(string \<times> rat) list" where
  "SENTIMENT_SCORES = [(''positive'', 1), (''negative'', - 1), (''neutral'', 0)]"

text \<open>\<^verbatim>\<open>SENTIMENT_SCORES.get(art.get("sentiment", "neutral"), 0.0)\<close>.\<close>

definition art_score :: "article \<Rightarrow> rat" where
  "art_score art =
     dict_get_default SENTIMENT_SCORES
       (case art_sentiment art of None \<Rightarrow> ''neutral'' | Some s \<Rightarrow> s) 0"

text \<open>\<^verbatim>\<open>art.get("confidence", 0.5)\<close>.\<close>

definition art_conf :: "article \<Rightarrow> rat" where
  "art_conf art = (case art_confidence art of None \<Rightarrow> 1 / 2 | Some c \<Rightarrow> c)"

text \<open>\<^verbatim>\<open>backtester.compute_sentiment_score\<close>: the pair is (weighted_sum, weight_total).\<close>

definition compute_sentiment_score :: "article list \<Rightarrow> rat" where
  "compute_sentiment_score articles =
     (let (weighted_sum, weight_total) =
            foldl (\<lambda>(ws, wt) art. (ws + art_score art * art_conf art, wt + art_conf art))
              (0, 0) articles
      in if weight_total > 0 then weighted_sum / weight_total else 0)"

section \<open>Backtest Table Builder (\<^verbatim>\<open>backtester.build_backtest_table\<close>)\<close>

text \<open>The second loop: one group after the other, in the sorted order of the keys.\<close>

fun table_loop ::
  "(string \<times> price_dict) list \<Rightarrow> ((string \<times> string) \<times> article list) list \<Rightarrow> row list
     \<Rightarrow> py_error + row list" where
  "table_loop prices [] table = Inr table"
| "table_loop prices (((tick, date_str), arts) # groups) table =
     (case map_of prices tick of
        None \<Rightarrow> table_loop prices groups table
      | Some tick_prices \<Rightarrow>
         (case compute_next_day_change tick_prices date_str of
            Inl e \<Rightarrow> Inl e
          | Inr None \<Rightarrow> table_loop prices groups table
          | Inr (Some change) \<Rightarrow>
             table_loop prices groups
               (table @ [\<lparr>ticker = tick, date = date_str,
                          sentiment_score = compute_sentiment_score arts,
                          actual_change_pct = change,
                          article_count = int (length arts)\<rparr>])))"

definition build_backtest_table ::
  "article list \<Rightarrow> (string \<times> price_dict) list \<Rightarrow> py_error + row list" where
  "build_backtest_table articles prices =
     (let groups = foldl (\<lambda>g art. dict_append g (art_ticker art, art_published art) art)
                     [] articles
      in table_loop prices (sort_key fst groups) [])"

section \<open>Auto-Tuner (\<^verbatim>\<open>backtester.auto_tune\<close>)\<close>

text \<open>
  The collaborators are parameters: \<open>collected\<close> is what \<^verbatim>\<open>collect_historical_news()\<close>
  returns, \<open>analyze\<close> is \<^verbatim>\<open>analyze_sentiment\<close> and \<open>fetch\<close> is \<^verbatim>\<open>fetch_price_data\<close>. The
  result is the returned flag and the live configuration after the call. The order of
  \<^verbatim>\<open>list(set(...))\<close> is not fixed by Python; it only reaches \<open>fetch\<close>.
\<close>

definition auto_tune ::
  "config \<Rightarrow> article list \<Rightarrow> (article list \<Rightarrow> article list)
     \<Rightarrow> (string list \<Rightarrow> (string \<times> price_dict) list) \<Rightarrow> py_error + (bool \<times> config)" where
  "auto_tune cfg collected analyze fetch =
     (let articles = collected
      in if articles = [] then Inr (False, cfg)
         else
          (let articles = analyze articles;
               tickers_with_articles = remdups (map art_ticker articles);
               prices = fetch tickers_with_articles
           in case build_backtest_table articles prices of
                Inl e \<Rightarrow> Inl e
              | Inr table \<Rightarrow>
                 if table = [] then Inr (False, cfg)
                 else
                  (let current = evaluate_thresholds table (BUY_THRESHOLD cfg)
                                   (SELL_THRESHOLD cfg) (MIN_ARTICLES cfg);
                       all_results = sweep_thresholds table
                   in case select_optimal all_results of
                        Inl e \<Rightarrow> Inl e
                      | Inr None \<Rightarrow> Inr (False, cfg)
                      | Inr (Some optimal) \<Rightarrow>
                         if accuracy optimal > accuracy current
                         then Inr (True, cfg\<lparr>BUY_THRESHOLD := buy_threshold optimal,
                                              SELL_THRESHOLD := sell_threshold optimal,
                                              MIN_ARTICLES := min_articles optimal\<rparr>)
                         else Inr (False, cfg))))"

section \<open>Signal Aggregator (\<^verbatim>\<open>signal_generator.generate_signals\<close>)\<close>

text \<open>The dict stored for one ticker.\<close>

record signal_entry =
  signal :: string
  score :: rat
  confidence :: rat
  sig_article_count :: int
  top_headline :: string
  display_name :: string

definition empty_signal :: "string \<Rightarrow> signal_entry" where
  "empty_signal tick =
     \<lparr>signal = ''HOLD'', score = 0, confidence = 0, sig_article_count = 0,
      top_headline = ''No recent news'',
      display_name = dict_get_default ASSET_DISPLAY_NAMES tick tick\<rparr>"

text \<open>The four variables of the loop over the articles of one ticker.\<close>

record agg_state =
  weighted_sum :: rat
  weight_total :: rat
  best_article :: "article option"
  best_confidence :: rat

definition init_agg :: agg_state where
  "init_agg = \<lparr>weighted_sum = 0, weight_total = 0, best_article = None, best_confidence = 0\<rparr>"

definition agg_step :: "agg_state \<Rightarrow> article \<Rightarrow> agg_state" where
  "agg_step s art =
     (let score = art_score art;
          conf = art_conf art
      in if score = 0 \<and> conf < 7 / 10 then s
         else
          (let s1 = s\<lparr>weighted_sum := weighted_sum s + score * conf,
                      weight_total := weight_total s + conf\<rparr>
           in if conf > best_confidence s1
              then s1\<lparr>best_confidence := conf, best_article := Some art\<rparr>
              else s1))"

text \<open>The body of \<^verbatim>\<open>for ticker in config.ALL_TICKERS\<close>: the entry stored under the ticker.\<close>

definition ticker_signal :: "config \<Rightarrow> string \<Rightarrow> article list \<Rightarrow> signal_entry" where
  "ticker_signal cfg tick ticker_articles =
     (let count = int (length ticker_articles)
      in if count = 0 then empty_signal tick
         else
          (let s = foldl agg_step init_agg ticker_articles;
               avg_score = (if weight_total s > 0 then weighted_sum s / weight_total s else 0);
               avg_confidence = (if count > 0 then weight_total s / of_int count else 0);
               sig = (if avg_score > BUY_THRESHOLD cfg \<and> count \<ge> MIN_ARTICLES cfg
                      then ''BUY''
                      else if avg_score < SELL_THRESHOLD cfg \<and> count \<ge> MIN_ARTICLES cfg
                      then ''SELL''
                      else ''HOLD'')
           in \<lparr>signal = sig,
               score = py_round avg_score 3,
               confidence = py_round (avg_confidence * 100) 1,
               sig_article_count = count,
               top_headline = (case best_article s of None \<Rightarrow> [] | Some a \<Rightarrow> art_title a),
               display_name = dict_get_default ASSET_DISPLAY_NAMES tick tick\<rparr>))"

definition generate_signals :: "config \<Rightarrow> article list \<Rightarrow> (string \<times> signal_entry) list" where
  "generate_signals cfg articles =
     (let by_ticker = foldl (\<lambda>g art. dict_append g (art_ticker art) art) [] articles
      in foldl (\<lambda>signals tick.
                  dict_set signals tick
                    (ticker_signal cfg tick (dict_get_default by_ticker tick [])))
           [] ALL_TICKERS)"

section \<open>Notions of the specification\<close>

text \<open>
  A viable configuration, as the selection filters them: at least three signals when any
  result has three, at least one otherwise.
\<close>

definition is_viable :: "eval_result list \<Rightarrow> eval_result \<Rightarrow> bool" where
  "is_viable all_results r =
     (if \<exists>x\<in>set all_results. total_signals x \<ge> 3 then total_signals r \<ge> 3
      else total_signals r \<ge> 1)"

text \<open>
  The enumeration order as the specification words it, buy within sell within
  \<open>min_articles\<close>: the sell thresholds \<open>sells\<close> in the middle loop and the buy thresholds in
  the innermost one.
\<close>

definition spec_enumeration :: "rat list \<Rightarrow> row list \<Rightarrow> eval_result list" where
  "spec_enumeration sells table =
     [evaluate_thresholds table bt st min_art.
        min_art \<leftarrow> min_articles_options, st \<leftarrow> sells, bt \<leftarrow> buy_range]"

text \<open>The dilution filter as the specification words it: polarity 0 and weight below 0.7.\<close>

definition diluted :: "article \<Rightarrow> bool" where
  "diluted art \<longleftrightarrow> art_score art = 0 \<and> art_conf art < 7 / 10"

text \<open>The value of the local variable \<^verbatim>\<open>avg_score\<close> of \<^verbatim>\<open>generate_signals\<close> for one ticker.\<close>

definition avg_score :: "article list \<Rightarrow> rat" where
  "avg_score ticker_articles =
     (let s = foldl agg_step init_agg ticker_articles
      in if weight_total s > 0 then weighted_sum s / weight_total s else 0)"

text \<open>
  The configurations the program can be in: the shipped one, and any configuration a call
  of the Auto-Tuner leaves behind, whatever the collaborators deliver.
\<close>

inductive live_config :: "config \<Rightarrow> bool" where
  shipped: "live_config shipped_config"
| tuned: "live_config cfg \<Longrightarrow> auto_tune cfg collected analyze fetch = Inr (flag, cfg')
            \<Longrightarrow> live_config cfg'"

section \<open>Example inputs\<close>

text \<open>Two rows of one asset: a BUY row that was right and a SELL row that was wrong.\<close>

definition example_table :: "row list" where
  "example_table =
     [\<lparr>ticker = ''AAPL'', date = ''2024-01-02'', sentiment_score = 1 / 2,
       actual_change_pct = 2, article_count = 2\<rparr>,
      \<lparr>ticker = ''AAPL'', date = ''2024-01-03'', sentiment_score = - (1 / 2),
       actual_change_pct = 1, article_count = 1\<rparr>]"

text \<open>A row whose score lies between a buy threshold 0.2 and a sell threshold 0.8.\<close>

definition overlap_row :: row where
  "overlap_row =
     \<lparr>ticker = ''AAPL'', date = ''2024-01-02'', sentiment_score = 1 / 2,
      actual_change_pct = - 1, article_count = 2\<rparr>"

text \<open>
  Four rows of one asset: a weak positive score followed by a fall, a weak negative score
  followed by a rise, and a strong score of each sign that was right.
\<close>

definition tie_table :: "row list" where
  "tie_table =
     [\<lparr>ticker = ''AAPL'', date = ''2024-01-02'', sentiment_score = 7 / 100,
       actual_change_pct = - 1, article_count = 2\<rparr>,
      \<lparr>ticker = ''AAPL'', date = ''2024-01-03'', sentiment_score = - (7 / 100),
       actual_change_pct = 100, article_count = 2\<rparr>,
      \<lparr>ticker = ''AAPL'', date = ''2024-01-04'', sentiment_score = 1,
       actual_change_pct = 100, article_count = 1\<rparr>,
      \<lparr>ticker = ''AAPL'', date = ''2024-01-05'', sentiment_score = - 1,
       actual_change_pct = - 50, article_count = 1\<rparr>]"

text \<open>
  Six scored articles and a price series from which \<^verbatim>\<open>build_backtest_table\<close> builds
  \<open>tie_table\<close>, and a live configuration that does worse on it than the best of the grid.
\<close>

definition tie_articles :: "article list" where
  "tie_articles =
     [\<lparr>art_title = ''a1'', art_ticker = ''AAPL'', art_published = ''2024-01-02'',
       art_sentiment = Some ''positive'', art_confidence = Some (535 / 1000)\<rparr>,
      \<lparr>art_title = ''a2'', art_ticker = ''AAPL'', art_published = ''2024-01-02'',
       art_sentiment = Some ''negative'', art_confidence = Some (465 / 1000)\<rparr>,
      \<lparr>art_title = ''b1'', art_ticker = ''AAPL'', art_published = ''2024-01-03'',
       art_sentiment = Some ''positive'', art_confidence = Some (465 / 1000)\<rparr>,
      \<lparr>art_title = ''b2'', art_ticker = ''AAPL'', art_published = ''2024-01-03'',
       art_sentiment = Some ''negative'', art_confidence = Some (535 / 1000)\<rparr>,
      \<lparr>art_title = ''c'', art_ticker = ''AAPL'', art_published = ''2024-01-04'',
       art_sentiment = Some ''positive'', art_confidence = Some (9 / 10)\<rparr>,
      \<lparr>art_title = ''d'', art_ticker = ''AAPL'', art_published = ''2024-01-05'',
       art_sentiment = Some ''negative'', art_confidence = Some (9 / 10)\<rparr>]"

definition tie_prices :: "(string \<times> price_dict) list" where
  "tie_prices =
     [(''AAPL'', [(''2024-01-02'', 100), (''2024-01-03'', 99), (''2024-01-04'', 198),
                  (''2024-01-05'', 396), (''2024-01-06'', 198)])]"

definition weak_config :: config where
  "weak_config = \<lparr>BUY_THRESHOLD = 1 / 20, SELL_THRESHOLD = - (1 / 20), MIN_ARTICLES = 1\<rparr>"

text \<open>The series of the specification's resolver scenario.\<close>

definition scenario_prices :: price_dict where
  "scenario_prices = [(''2024-01-02'', 100), (''2024-01-03'', 102)]"

text \<open>One neutral article, and the one-row table the builder makes of it: no score to act on.\<close>

definition flat_articles :: "article list" where
  "flat_articles =
     [\<lparr>art_title = ''n'', art_ticker = ''AAPL'', art_published = ''2024-01-02'',
       art_sentiment = Some ''neutral'', art_confidence = Some (9 / 10)\<rparr>]"

definition flat_table :: "row list" where
  "flat_table =
     [\<lparr>ticker = ''AAPL'', date = ''2024-01-02'', sentiment_score = 0,
       actual_change_pct = - 1, article_count = 1\<rparr>]"

text \<open>The articles and configurations of the aggregator scenarios.\<close>

definition neutral_article :: article where
  "neutral_article =
     \<lparr>art_title = ''Markets flat'', art_ticker = ''AAPL'', art_published = ''2024-01-02'',
      art_sentiment = Some ''neutral'', art_confidence = Some (4 / 10)\<rparr>"

definition mixed_articles :: "article list" where
  "mixed_articles =
     [\<lparr>art_title = ''up'', art_ticker = ''AAPL'', art_published = ''2024-01-02'',
       art_sentiment = Some ''positive'', art_confidence = Some (9 / 10)\<rparr>,
      \<lparr>art_title = ''down'', art_ticker = ''AAPL'', art_published = ''2024-01-02'',
       art_sentiment = Some ''negative'', art_confidence = Some (3 / 10)\<rparr>]"

definition crossed_config :: config where
  "crossed_config = \<lparr>BUY_THRESHOLD = 2 / 10, SELL_THRESHOLD = 8 / 10, MIN_ARTICLES = 1\<rparr>"

definition stray_article :: article where
  "stray_article =
     \<lparr>art_title = ''Elsewhere'', art_ticker = ''ZZZ'', art_published = ''2024-01-02'',
      art_sentiment = Some ''positive'', art_confidence = Some (9 / 10)\<rparr>"

section \<open>The Threshold Evaluator: counting lemmas\<close>

lemma eval_loop_Nil: "eval_loop b s m c [] = c"
  by (simp add: eval_loop_def)

lemma eval_loop_Cons: "eval_loop b s m c (r # t) = eval_loop b s m (eval_row b s m c r) t"
  by (simp add: eval_loop_def)

lemma eval_row_sum:
  "total_signals (eval_row b s m c r) + hold_count (eval_row b s m c r)
     = Suc (total_signals c + hold_count c)"
  by (simp add: eval_row_def Let_def)

lemma eval_loop_sum:
  "total_signals (eval_loop b s m c t) + hold_count (eval_loop b s m c t)
     = total_signals c + hold_count c + length t"
  by (induction t arbitrary: c) (simp_all add: eval_loop_Nil eval_loop_Cons eval_row_sum)

lemma eval_row_matrix:
  "tp_buy c + fp_buy c + tp_sell c + fp_sell c = total_signals c \<Longrightarrow>
   tp_buy (eval_row b s m c r) + fp_buy (eval_row b s m c r)
     + tp_sell (eval_row b s m c r) + fp_sell (eval_row b s m c r)
     = total_signals (eval_row b s m c r)"
  by (simp add: eval_row_def Let_def)

lemma eval_loop_matrix:
  "tp_buy c + fp_buy c + tp_sell c + fp_sell c = total_signals c \<Longrightarrow>
   tp_buy (eval_loop b s m c t) + fp_buy (eval_loop b s m c t)
     + tp_sell (eval_loop b s m c t) + fp_sell (eval_loop b s m c t)
     = total_signals (eval_loop b s m c t)"
  by (induction t arbitrary: c) (simp_all add: eval_loop_Nil eval_loop_Cons eval_row_matrix)

lemma eval_loop_init_matrix:
  "tp_buy (eval_loop b s m init_counts t) + fp_buy (eval_loop b s m init_counts t)
     + tp_sell (eval_loop b s m init_counts t) + fp_sell (eval_loop b s m init_counts t)
     = total_signals (eval_loop b s m init_counts t)"
  by (rule eval_loop_matrix) (simp add: init_counts_def)

text \<open>Each counter of the loop counts the rows that take its branch.\<close>

lemma eval_loop_hold:
  "hold_count (eval_loop b s m c t) =
     hold_count c + length (filter (\<lambda>r. article_count r < m
        \<or> (\<not> b < sentiment_score r \<and> \<not> sentiment_score r < s)) t)"
proof (induction t arbitrary: c)
  case Nil
  show ?case by (simp add: eval_loop_Nil)
next
  case (Cons r t)
  show ?case
    unfolding eval_loop_Cons Cons.IH by (simp add: eval_row_def Let_def)
qed

lemma eval_loop_buys:
  "tp_buy (eval_loop b s m c t) + fp_buy (eval_loop b s m c t) =
     tp_buy c + fp_buy c
       + length (filter (\<lambda>r. m \<le> article_count r \<and> b < sentiment_score r) t)"
proof (induction t arbitrary: c)
  case Nil
  show ?case by (simp add: eval_loop_Nil)
next
  case (Cons r t)
  show ?case
    unfolding eval_loop_Cons Cons.IH by (simp add: eval_row_def Let_def)
qed

lemma eval_loop_sells:
  "tp_sell (eval_loop b s m c t) + fp_sell (eval_loop b s m c t) =
     tp_sell c + fp_sell c
       + length (filter (\<lambda>r. m \<le> article_count r \<and> \<not> b < sentiment_score r
                              \<and> sentiment_score r < s) t)"
proof (induction t arbitrary: c)
  case Nil
  show ?case by (simp add: eval_loop_Nil)
next
  case (Cons r t)
  show ?case
    unfolding eval_loop_Cons Cons.IH by (simp add: eval_row_def Let_def)
qed

lemma length_filter_mono:
  "(\<And>x. x \<in> set xs \<Longrightarrow> P x \<Longrightarrow> Q x) \<Longrightarrow> length (filter P xs) \<le> length (filter Q xs)"
  by (induction xs) auto

section \<open>The Threshold Evaluator: the claims\<close>

text \<open>
  Claim C2. For every table and every threshold triple, the result of
  \<^verbatim>\<open>evaluate_thresholds\<close> has \<open>total_signals + hold_count\<close> equal to the length of the
  table, \<open>correct = tp_buy + tp_sell \<le> total_signals\<close>, an accuracy between 0 and 1, and
  the accuracy 0 when \<open>total_signals\<close> is 0.
\<close>

theorem evaluate_thresholds_invariants:
  "(let res = evaluate_thresholds table bt st ma
    in total_signals res + hold_count res = length table
       \<and> correct res = tp_buy res + tp_sell res
       \<and> correct res \<le> total_signals res
       \<and> 0 \<le> accuracy res \<and> accuracy res \<le> 1
       \<and> (total_signals res = 0 \<longrightarrow> accuracy res = 0))"
proof -
  let ?c = "eval_loop bt st ma init_counts table"
  have total: "total_signals ?c + hold_count ?c = length table"
    using eval_loop_sum [of bt st ma init_counts table] by (simp add: init_counts_def)
  have le: "tp_buy ?c + tp_sell ?c \<le> total_signals ?c"
    using eval_loop_init_matrix [of bt st ma table] by linarith
  show ?thesis
    using total le by (simp add: evaluate_thresholds_def Let_def)
qed

theorem evaluate_thresholds_invariants_witness:
  "total_signals (evaluate_thresholds example_table (1 / 5) (- (1 / 20)) 3) = 0
   \<and> accuracy (evaluate_thresholds example_table (1 / 5) (- (1 / 20)) 3) = 0
   \<and> hold_count (evaluate_thresholds example_table (1 / 5) (- (1 / 20)) 3) = 2"
  using evaluate_thresholds_invariants [of example_table "1 / 5" "- (1 / 20)" 3]
  by (simp add: evaluate_thresholds_def eval_loop_def eval_row_def example_table_def
      init_counts_def Let_def)

text \<open>
  Claim C7. No row is counted both as a BUY and as a SELL signal: one step of the loop
  never raises the BUY counters and the SELL counters together, and over a table the BUY
  counters count the rows above the buy threshold while the SELL counters count only rows
  that are not above it. When \<open>sell_threshold > buy_threshold\<close>, a row with enough articles
  and a score in the overlap is counted as BUY, the branch that is checked first.
\<close>

theorem evaluator_buy_first:
  "(let c' = eval_row bt st ma c r
    in \<not> (tp_buy c + fp_buy c < tp_buy c' + fp_buy c'
            \<and> tp_sell c + fp_sell c < tp_sell c' + fp_sell c')
       \<and> (bt < st \<and> ma \<le> article_count r \<and> bt < sentiment_score r \<and> sentiment_score r < st
            \<longrightarrow> tp_buy c' + fp_buy c' = tp_buy c + fp_buy c + 1
                \<and> total_signals c' = total_signals c + 1
                \<and> tp_sell c' = tp_sell c \<and> fp_sell c' = fp_sell c
                \<and> hold_count c' = hold_count c))
   \<and> (let res = evaluate_thresholds table bt st ma
      in tp_buy res + fp_buy res
           = length (filter (\<lambda>r. ma \<le> article_count r \<and> bt < sentiment_score r) table)
         \<and> tp_sell res + fp_sell res
           = length (filter (\<lambda>r. ma \<le> article_count r \<and> \<not> bt < sentiment_score r
                                   \<and> sentiment_score r < st) table))"
proof -
  let ?c' = "eval_row bt st ma c r" and ?res = "evaluate_thresholds table bt st ma"
  have step: "\<not> (tp_buy c + fp_buy c < tp_buy ?c' + fp_buy ?c'
                 \<and> tp_sell c + fp_sell c < tp_sell ?c' + fp_sell ?c')"
    by (simp add: eval_row_def Let_def)
  have overlap:
    "bt < st \<and> ma \<le> article_count r \<and> bt < sentiment_score r \<and> sentiment_score r < st
      \<longrightarrow> tp_buy ?c' + fp_buy ?c' = tp_buy c + fp_buy c + 1
          \<and> total_signals ?c' = total_signals c + 1
          \<and> tp_sell ?c' = tp_sell c \<and> fp_sell ?c' = fp_sell c
          \<and> hold_count ?c' = hold_count c"
    by (simp add: eval_row_def Let_def)
  have buys: "tp_buy ?res + fp_buy ?res
      = length (filter (\<lambda>r. ma \<le> article_count r \<and> bt < sentiment_score r) table)"
    using eval_loop_buys [of bt st ma init_counts table]
    by (simp add: evaluate_thresholds_def Let_def init_counts_def)
  have sells: "tp_sell ?res + fp_sell ?res
      = length (filter (\<lambda>r. ma \<le> article_count r \<and> \<not> bt < sentiment_score r
                              \<and> sentiment_score r < st) table)"
    using eval_loop_sells [of bt st ma init_counts table]
    by (simp add: evaluate_thresholds_def Let_def init_counts_def)
  show ?thesis
    unfolding Let_def using step overlap buys sells by blast
qed

theorem evaluator_buy_first_witness:
  "(1 / 5 :: rat) < 4 / 5 \<and> 1 \<le> article_count overlap_row
   \<and> 1 / 5 < sentiment_score overlap_row \<and> sentiment_score overlap_row < 4 / 5
   \<and> fp_buy (eval_row (1 / 5) (4 / 5) 1 init_counts overlap_row) = 1
   \<and> tp_sell (eval_row (1 / 5) (4 / 5) 1 init_counts overlap_row) = 0
   \<and> fp_sell (eval_row (1 / 5) (4 / 5) 1 init_counts overlap_row) = 0
   \<and> hold_count (eval_row (1 / 5) (4 / 5) 1 init_counts overlap_row) = 0"
  using evaluator_buy_first [of "1 / 5" "4 / 5" 1 init_counts overlap_row "[overlap_row]"]
  by (simp add: eval_row_def overlap_row_def init_counts_def Let_def)

text \<open>
  Claim C9. With the two thresholds fixed, \<open>hold_count\<close> does not decrease when
  \<open>min_articles\<close> grows, over a table and in each step of the loop: a row that is held
  under the smaller value is held under the larger one.
\<close>

theorem hold_count_mono:
  assumes "m1 \<le> m2"
  shows "hold_count (evaluate_thresholds table bt st m1)
           \<le> hold_count (evaluate_thresholds table bt st m2)
         \<and> hold_count (eval_row bt st m1 c r) \<le> hold_count (eval_row bt st m2 c r)"
proof -
  have held: "hold_count (evaluate_thresholds table bt st m) =
      length (filter (\<lambda>r. article_count r < m
        \<or> (\<not> bt < sentiment_score r \<and> \<not> sentiment_score r < st)) table)" for m
    using eval_loop_hold [of bt st m init_counts table]
    by (simp add: evaluate_thresholds_def Let_def init_counts_def)
  have "hold_count (evaluate_thresholds table bt st m1)
           \<le> hold_count (evaluate_thresholds table bt st m2)"
    unfolding held using assms by (intro length_filter_mono) auto
  moreover have "hold_count (eval_row bt st m1 c r) \<le> hold_count (eval_row bt st m2 c r)"
    using assms by (simp add: eval_row_def Let_def)
  ultimately show ?thesis by simp
qed

theorem hold_count_mono_witness:
  "(1 :: int) \<le> 2
   \<and> hold_count (evaluate_thresholds example_table (1 / 5) (- (1 / 20)) 1) = 0
   \<and> hold_count (evaluate_thresholds example_table (1 / 5) (- (1 / 20)) 2) = 1"
  using hold_count_mono [of 1 2 example_table "1 / 5" "- (1 / 20)" init_counts overlap_row]
  by (simp add: evaluate_thresholds_def eval_loop_def eval_row_def example_table_def
      init_counts_def Let_def)

section \<open>The selection: sorting lemmas\<close>

lemma sort_desc_Nil: "sort_desc [] = []"
  by (simp add: sort_desc_def)

lemma sort_desc_Cons: "sort_desc (x # xs) = insort_desc x (sort_desc xs)"
  by (simp add: sort_desc_def)

lemma insort_desc_not_Nil: "insort_desc x ys \<noteq> []"
  by (cases ys) auto

lemma sort_desc_eq_Nil: "sort_desc xs = [] \<longleftrightarrow> xs = []"
  by (cases xs) (simp_all add: sort_desc_Nil sort_desc_Cons insort_desc_not_Nil)

text \<open>The head of the sorted list is the first element of greatest key.\<close>

lemma sort_desc_filter_hd:
  "sort_desc (filter P xs) = opt # rest \<Longrightarrow>
   \<exists>pre post. xs = pre @ opt # post \<and> P opt
     \<and> (\<forall>y\<in>set pre. P y \<longrightarrow> viable_key y < viable_key opt)
     \<and> (\<forall>y\<in>set post. P y \<longrightarrow> viable_key y \<le> viable_key opt)"
proof (induction xs arbitrary: opt rest)
  case Nil
  then show ?case by (simp add: sort_desc_Nil)
next
  case (Cons x xs)
  show ?case
  proof (cases "P x")
    case False
    with Cons.prems have "sort_desc (filter P xs) = opt # rest" by simp
    from Cons.IH [OF this] obtain pre post where
      "xs = pre @ opt # post" "P opt"
      "\<forall>y\<in>set pre. P y \<longrightarrow> viable_key y < viable_key opt"
      "\<forall>y\<in>set post. P y \<longrightarrow> viable_key y \<le> viable_key opt" by blast
    with False have "x # xs = (x # pre) @ opt # post \<and> P opt
      \<and> (\<forall>y\<in>set (x # pre). P y \<longrightarrow> viable_key y < viable_key opt)
      \<and> (\<forall>y\<in>set post. P y \<longrightarrow> viable_key y \<le> viable_key opt)" by simp
    then show ?thesis by blast
  next
    case True
    then have ins: "insort_desc x (sort_desc (filter P xs)) = opt # rest"
      using Cons.prems by (simp add: sort_desc_Cons)
    show ?thesis
    proof (cases "sort_desc (filter P xs)")
      case Nil
      then have "filter P xs = []" by (simp add: sort_desc_eq_Nil)
      then have none: "\<forall>y\<in>set xs. \<not> P y" by (simp add: filter_empty_conv)
      from ins Nil have "opt = x" by simp
      with True none have "x # xs = [] @ opt # xs \<and> P opt
        \<and> (\<forall>y\<in>set []. P y \<longrightarrow> viable_key y < viable_key opt)
        \<and> (\<forall>y\<in>set xs. P y \<longrightarrow> viable_key y \<le> viable_key opt)" by simp
      then show ?thesis by blast
    next
      case (Cons o' rest')
      from Cons.IH [OF this] obtain pre post where dec:
        "xs = pre @ o' # post" "P o'"
        "\<forall>y\<in>set pre. P y \<longrightarrow> viable_key y < viable_key o'"
        "\<forall>y\<in>set post. P y \<longrightarrow> viable_key y \<le> viable_key o'" by blast
      show ?thesis
      proof (cases "viable_key x < viable_key o'")
        case less: True
        with ins Cons have "opt = o'" by simp
        with dec less have "x # xs = (x # pre) @ opt # post \<and> P opt
          \<and> (\<forall>y\<in>set (x # pre). P y \<longrightarrow> viable_key y < viable_key opt)
          \<and> (\<forall>y\<in>set post. P y \<longrightarrow> viable_key y \<le> viable_key opt)" by simp
        then show ?thesis by blast
      next
        case ge: False
        with ins Cons have "opt = x" by simp
        have "\<forall>y\<in>set xs. P y \<longrightarrow> viable_key y \<le> viable_key o'"
          using dec by (auto simp: less_imp_le)
        with ge \<open>opt = x\<close> True have "x # xs = [] @ opt # xs \<and> P opt
          \<and> (\<forall>y\<in>set []. P y \<longrightarrow> viable_key y < viable_key opt)
          \<and> (\<forall>y\<in>set xs. P y \<longrightarrow> viable_key y \<le> viable_key opt)"
          by (auto simp: not_less intro: order_trans)
        then show ?thesis by blast
      qed
    qed
  qed
qed

lemma select_optimal_cases:
  "select_optimal rs =
     (if filter (is_viable rs) rs = [] then Inr None
      else Inr (Some (hd (sort_desc (filter (is_viable rs) rs)))))"
proof -
  have v: "(\<lambda>r. 3 \<le> total_signals r) = is_viable rs" if "\<exists>x\<in>set rs. total_signals x \<ge> 3"
    using that by (auto simp: is_viable_def fun_eq_iff)
  have w: "(\<lambda>r. 1 \<le> total_signals r) = is_viable rs" if "\<not> (\<exists>x\<in>set rs. total_signals x \<ge> 3)"
    using that by (auto simp: is_viable_def fun_eq_iff)
  show ?thesis
  proof (cases "\<exists>x\<in>set rs. total_signals x \<ge> 3")
    case True
    then have ne: "filter (\<lambda>r. 3 \<le> total_signals r) rs \<noteq> []"
      by (auto simp: filter_empty_conv)
    then have "sort_desc (filter (\<lambda>r. 3 \<le> total_signals r) rs) \<noteq> []"
      by (simp add: sort_desc_eq_Nil)
    then show ?thesis
      using ne unfolding select_optimal_def Let_def v [OF True, symmetric]
      by (auto split: list.splits)
  next
    case False
    then have e: "filter (\<lambda>r. 3 \<le> total_signals r) rs = []"
      by (auto simp: filter_empty_conv)
    have "sort_desc (filter (\<lambda>r. 1 \<le> total_signals r) rs) \<noteq> []"
      if "filter (\<lambda>r. 1 \<le> total_signals r) rs \<noteq> []"
      using that by (simp add: sort_desc_eq_Nil)
    then show ?thesis
      unfolding select_optimal_def Let_def w [OF False, symmetric] e
      by (auto split: list.splits)
  qed
qed

section \<open>The sweep grid\<close>

lemma tie_key_bound:
  "1 / 20 \<le> bt \<Longrightarrow> st \<le> - (1 / 20) \<Longrightarrow>
   3 \<le> total_signals (evaluate_thresholds tie_table bt st m) \<Longrightarrow>
   viable_key (evaluate_thresholds tie_table bt st m) \<le> (2 / 3, 3)"
  by (simp add: evaluate_thresholds_def eval_loop_def eval_row_def tie_table_def
      init_counts_def Let_def viable_key_def split: if_splits)

lemma tie_first: "viable_key (evaluate_thresholds tie_table (1 / 20) (- (1 / 20)) 1) = (1 / 2, 4)"
  by (simp add: evaluate_thresholds_def eval_loop_def eval_row_def tie_table_def
      init_counts_def Let_def viable_key_def)

lemma tie_code: "viable_key (evaluate_thresholds tie_table (1 / 20) (- (1 / 10)) 1) = (2 / 3, 3)"
  by (simp add: evaluate_thresholds_def eval_loop_def eval_row_def tie_table_def
      init_counts_def Let_def viable_key_def)

lemma buy_range_eq:
  "buy_range = [1/20, 1/10, 3/20, 1/5, 1/4, 3/10, 7/20, 2/5, 9/20, 1/2, 11/20, 3/5]"
  by code_simp

lemma sell_range_eq:
  "sell_range = [- (1/20), - (1/10), - (3/20), - (1/5), - (1/4), - (3/10), - (7/20),
                 - (2/5), - (9/20), - (1/2), - (11/20), - (3/5)]"
  by code_simp

lemma sweep_head:
  "\<exists>post. sweep_thresholds table =
     [evaluate_thresholds table (1 / 20) (- (1 / 20)) 1] @
      evaluate_thresholds table (1 / 20) (- (1 / 10)) 1 # post"
  by (simp add: sweep_thresholds_def buy_range_eq sell_range_eq min_articles_options_def)

lemma sweep_length: "length (sweep_thresholds table) = 576"
  by (simp add: sweep_thresholds_def buy_range_eq sell_range_eq min_articles_options_def)

lemma sweep_mem:
  "r \<in> set (sweep_thresholds table) \<Longrightarrow>
   \<exists>bt st m. r = evaluate_thresholds table bt st m \<and> bt \<in> set buy_range
     \<and> st \<in> set sell_range \<and> m \<in> set min_articles_options"
  by (auto simp: sweep_thresholds_def)

lemma buy_range_pos: "bt \<in> set buy_range \<Longrightarrow> 1 / 20 \<le> bt \<and> bt \<le> 3 / 5"
  unfolding buy_range_eq by auto

lemma sell_range_neg: "st \<in> set sell_range \<Longrightarrow> - (3 / 5) \<le> st \<and> st \<le> - (1 / 20)"
  unfolding sell_range_eq by auto

section \<open>The selection: what is selected\<close>

lemma set_insort_desc: "set (insort_desc x ys) = insert x (set ys)"
  by (induction ys) auto

lemma set_sort_desc: "set (sort_desc xs) = set xs"
  by (induction xs) (simp_all add: sort_desc_Nil sort_desc_Cons set_insort_desc)

text \<open>Conversely, the first element of greatest key comes out at the head.\<close>

lemma sort_desc_filter_first:
  "P opt \<Longrightarrow> \<forall>y\<in>set pre. P y \<longrightarrow> viable_key y < viable_key opt \<Longrightarrow>
   \<forall>y\<in>set post. P y \<longrightarrow> viable_key y \<le> viable_key opt \<Longrightarrow>
   \<exists>rest. sort_desc (filter P (pre @ opt # post)) = opt # rest"
proof (induction pre)
  case Nil
  show ?case
  proof (cases "sort_desc (filter P post)")
    case Nil
    with \<open>P opt\<close> show ?thesis by (simp add: sort_desc_Cons)
  next
    case (Cons y ys)
    then have "y \<in> set (sort_desc (filter P post))" by simp
    then have "y \<in> set (filter P post)" by (simp only: set_sort_desc)
    with Nil.prems(3) have "\<not> viable_key opt < viable_key y" by (auto simp: not_less)
    with \<open>P opt\<close> Cons show ?thesis by (simp add: sort_desc_Cons)
  qed
next
  case (Cons x pre)
  then obtain rest where rest: "sort_desc (filter P (pre @ opt # post)) = opt # rest"
    by auto
  show ?case
  proof (cases "P x")
    case True
    with Cons.prems(2) have "viable_key x < viable_key opt" by simp
    with True rest show ?thesis by (simp add: sort_desc_Cons)
  next
    case False
    with rest show ?thesis by simp
  qed
qed

lemma select_optimal_first:
  assumes "rs = pre @ opt # post" and "is_viable rs opt"
    and "\<forall>y\<in>set pre. is_viable rs y \<longrightarrow> viable_key y < viable_key opt"
    and "\<forall>y\<in>set post. is_viable rs y \<longrightarrow> viable_key y \<le> viable_key opt"
  shows "select_optimal rs = Inr (Some opt)"
proof -
  obtain rest where "sort_desc (filter (is_viable rs) (pre @ opt # post)) = opt # rest"
    using sort_desc_filter_first [OF assms(2-4)] by blast
  then have "sort_desc (filter (is_viable rs) rs) = opt # rest"
    using assms(1) by simp
  moreover from this have "filter (is_viable rs) rs \<noteq> []"
    by (auto simp: sort_desc_Nil)
  ultimately show ?thesis by (simp add: select_optimal_cases)
qed

lemma select_optimal_Some:
  assumes "select_optimal rs = Inr (Some opt)"
  shows "\<exists>pre post. rs = pre @ opt # post \<and> is_viable rs opt
     \<and> (\<forall>y\<in>set pre. is_viable rs y \<longrightarrow> viable_key y < viable_key opt)
     \<and> (\<forall>y\<in>set post. is_viable rs y \<longrightarrow> viable_key y \<le> viable_key opt)"
proof -
  from assms have ne: "filter (is_viable rs) rs \<noteq> []"
    and opt: "opt = hd (sort_desc (filter (is_viable rs) rs))"
    by (auto simp: select_optimal_cases split: if_splits)
  from ne have "sort_desc (filter (is_viable rs) rs) \<noteq> []" by (simp add: sort_desc_eq_Nil)
  with opt have "sort_desc (filter (is_viable rs) rs)
                  = opt # tl (sort_desc (filter (is_viable rs) rs))" by simp
  from sort_desc_filter_hd [OF this] show ?thesis .
qed

lemma select_optimal_None:
  "select_optimal rs = Inr None \<longleftrightarrow> (\<forall>r\<in>set rs. total_signals r = 0)"
proof -
  have "filter (is_viable rs) rs = [] \<longleftrightarrow> (\<forall>r\<in>set rs. total_signals r = 0)"
  proof (cases "\<exists>x\<in>set rs. 3 \<le> total_signals x")
    case True
    then show ?thesis by (auto simp: filter_empty_conv is_viable_def)
  next
    case False
    then have "is_viable rs r \<longleftrightarrow> total_signals r \<noteq> 0" for r
      by (auto simp: is_viable_def)
    then show ?thesis by (simp add: filter_empty_conv)
  qed
  then show ?thesis by (simp add: select_optimal_cases)
qed

lemma select_optimal_no_raise: "select_optimal rs \<noteq> Inl e"
  by (simp add: select_optimal_cases)

section \<open>The Threshold Sweeper: the claims\<close>

lemma tie_claimed: "viable_key (evaluate_thresholds tie_table (1 / 10) (- (1 / 20)) 1) = (2 / 3, 3)"
  by (simp add: evaluate_thresholds_def eval_loop_def eval_row_def tie_table_def
      init_counts_def Let_def viable_key_def)

lemma tie_claimed_rev: "viable_key (evaluate_thresholds tie_table (1 / 20) (- (3 / 5)) 1) = (2 / 3, 3)"
  by (simp add: evaluate_thresholds_def eval_loop_def eval_row_def tie_table_def
      init_counts_def Let_def viable_key_def)

lemma spec_enumeration_mem:
  "r \<in> set (spec_enumeration sells table) \<Longrightarrow>
   \<exists>bt st m. r = evaluate_thresholds table bt st m \<and> bt \<in> set buy_range
     \<and> st \<in> set sells \<and> m \<in> set min_articles_options"
  by (auto simp: spec_enumeration_def)

lemma spec_enumeration_head:
  "\<exists>post. spec_enumeration sell_range table =
     [evaluate_thresholds table (1 / 20) (- (1 / 20)) 1] @
      evaluate_thresholds table (1 / 10) (- (1 / 20)) 1 # post"
  by (simp add: spec_enumeration_def buy_range_eq sell_range_eq min_articles_options_def)

lemma spec_enumeration_rev_head:
  "\<exists>post. spec_enumeration (rev sell_range) table =
     [] @ evaluate_thresholds table (1 / 20) (- (3 / 5)) 1 # post"
  by (simp add: spec_enumeration_def buy_range_eq sell_range_eq min_articles_options_def)

text \<open>
  On \<open>tie_table\<close>, a list of grid results that starts like \<open>pre @ opt # _\<close>, with \<open>opt\<close> of
  key \<open>(2/3, 3)\<close> and \<open>pre\<close> of smaller keys, has \<open>opt\<close> selected.
\<close>

lemma tie_select:
  assumes rs: "rs = pre @ evaluate_thresholds tie_table b s 1 # post"
    and key: "viable_key (evaluate_thresholds tie_table b s 1) = (2 / 3, 3)"
    and pre: "\<forall>y\<in>set pre. viable_key y < (2 / 3, 3)"
    and grid: "\<forall>r\<in>set rs. \<exists>bt st m. r = evaluate_thresholds tie_table bt st m
                 \<and> 1 / 20 \<le> bt \<and> st \<le> - (1 / 20)"
  shows "select_optimal rs = Inr (Some (evaluate_thresholds tie_table b s 1))"
proof (rule select_optimal_first [OF rs])
  let ?opt = "evaluate_thresholds tie_table b s 1"
  have three: "total_signals ?opt = 3" using key by (simp add: viable_key_def)
  moreover have "?opt \<in> set rs" using rs by simp
  ultimately have "\<exists>x\<in>set rs. 3 \<le> total_signals x" by force
  then have viable: "is_viable rs r \<longleftrightarrow> 3 \<le> total_signals r" for r
    by (simp add: is_viable_def)
  show "is_viable rs ?opt" using three by (simp add: viable)
  show "\<forall>y\<in>set pre. is_viable rs y \<longrightarrow> viable_key y < viable_key ?opt"
    using pre key by simp
  show "\<forall>y\<in>set post. is_viable rs y \<longrightarrow> viable_key y \<le> viable_key ?opt"
  proof (intro ballI impI)
    fix y assume "y \<in> set post" and v: "is_viable rs y"
    then have "y \<in> set rs" using rs by simp
    with grid obtain bt st m where
      y: "y = evaluate_thresholds tie_table bt st m" "1 / 20 \<le> bt" "st \<le> - (1 / 20)"
      by blast
    from v have "3 \<le> total_signals y" by (simp add: viable)
    with y tie_key_bound [of bt st m] show "viable_key y \<le> viable_key ?opt"
      using key by simp
  qed
qed

lemma tie_select_code:
  "select_optimal (sweep_thresholds tie_table)
     = Inr (Some (evaluate_thresholds tie_table (1 / 20) (- (1 / 10)) 1))"
proof -
  obtain post where "sweep_thresholds tie_table =
     [evaluate_thresholds tie_table (1 / 20) (- (1 / 20)) 1] @
      evaluate_thresholds tie_table (1 / 20) (- (1 / 10)) 1 # post"
    using sweep_head [of tie_table] by blast
  then show ?thesis
  proof (rule tie_select)
    show "viable_key (evaluate_thresholds tie_table (1 / 20) (- (1 / 10)) 1) = (2 / 3, 3)"
      by (rule tie_code)
    show "\<forall>y\<in>set [evaluate_thresholds tie_table (1 / 20) (- (1 / 20)) 1].
            viable_key y < (2 / 3, 3)"
      by (simp add: tie_first)
    show "\<forall>r\<in>set (sweep_thresholds tie_table).
            \<exists>bt st m. r = evaluate_thresholds tie_table bt st m
              \<and> 1 / 20 \<le> bt \<and> st \<le> - (1 / 20)"
      using sweep_mem buy_range_pos sell_range_neg by blast
  qed
qed

lemma tie_select_claimed:
  "select_optimal (spec_enumeration sell_range tie_table)
     = Inr (Some (evaluate_thresholds tie_table (1 / 10) (- (1 / 20)) 1))"
proof -
  obtain post where "spec_enumeration sell_range tie_table =
     [evaluate_thresholds tie_table (1 / 20) (- (1 / 20)) 1] @
      evaluate_thresholds tie_table (1 / 10) (- (1 / 20)) 1 # post"
    using spec_enumeration_head [of tie_table] by blast
  then show ?thesis
  proof (rule tie_select)
    show "viable_key (evaluate_thresholds tie_table (1 / 10) (- (1 / 20)) 1) = (2 / 3, 3)"
      by (rule tie_claimed)
    show "\<forall>y\<in>set [evaluate_thresholds tie_table (1 / 20) (- (1 / 20)) 1].
            viable_key y < (2 / 3, 3)"
      by (simp add: tie_first)
    show "\<forall>r\<in>set (spec_enumeration sell_range tie_table).
            \<exists>bt st m. r = evaluate_thresholds tie_table bt st m
              \<and> 1 / 20 \<le> bt \<and> st \<le> - (1 / 20)"
      using spec_enumeration_mem buy_range_pos sell_range_neg by blast
  qed
qed

lemma tie_select_claimed_rev:
  "select_optimal (spec_enumeration (rev sell_range) tie_table)
     = Inr (Some (evaluate_thresholds tie_table (1 / 20) (- (3 / 5)) 1))"
proof -
  obtain post where "spec_enumeration (rev sell_range) tie_table =
     [] @ evaluate_thresholds tie_table (1 / 20) (- (3 / 5)) 1 # post"
    using spec_enumeration_rev_head [of tie_table] by blast
  then show ?thesis
  proof (rule tie_select)
    show "viable_key (evaluate_thresholds tie_table (1 / 20) (- (3 / 5)) 1) = (2 / 3, 3)"
      by (rule tie_claimed_rev)
    show "\<forall>y\<in>set []. viable_key y < (2 / 3, 3)"
      by simp
    have "st \<in> set (rev sell_range) \<Longrightarrow> st \<le> - (1 / 20)" for st
      using sell_range_neg [of st] by simp
    then show "\<forall>r\<in>set (spec_enumeration (rev sell_range) tie_table).
            \<exists>bt st m. r = evaluate_thresholds tie_table bt st m
              \<and> 1 / 20 \<le> bt \<and> st \<le> - (1 / 20)"
      using spec_enumeration_mem buy_range_pos by blast
  qed
qed

text \<open>
  Claim C1 as it is worded breaks ties by the order buy within sell within
  \<open>min_articles\<close>. On \<open>tie_table\<close> the best key \<open>(2/3, 3)\<close> is reached by several
  configurations; the code returns buy 0.05 and sell -0.10, while the first best
  configuration in the worded order is buy 0.10 and sell -0.05 (or buy 0.05 and sell -0.60
  when the sell thresholds are taken in increasing numeric order).
\<close>

theorem sweep_tie_break_counterexample:
  "select_optimal (sweep_thresholds tie_table)
     = Inr (Some (evaluate_thresholds tie_table (1 / 20) (- (1 / 10)) 1))
   \<and> select_optimal (spec_enumeration sell_range tie_table)
     = Inr (Some (evaluate_thresholds tie_table (1 / 10) (- (1 / 20)) 1))
   \<and> select_optimal (spec_enumeration (rev sell_range) tie_table)
     = Inr (Some (evaluate_thresholds tie_table (1 / 20) (- (3 / 5)) 1))
   \<and> select_optimal (sweep_thresholds tie_table)
       \<noteq> select_optimal (spec_enumeration sell_range tie_table)
   \<and> select_optimal (sweep_thresholds tie_table)
       \<noteq> select_optimal (spec_enumeration (rev sell_range) tie_table)"
proof -
  have "evaluate_thresholds tie_table (1 / 20) (- (1 / 10)) 1
          \<noteq> evaluate_thresholds tie_table (1 / 10) (- (1 / 20)) 1"
    by (simp add: evaluate_thresholds_def Let_def)
  moreover have "evaluate_thresholds tie_table (1 / 20) (- (1 / 10)) 1
          \<noteq> evaluate_thresholds tie_table (1 / 20) (- (3 / 5)) 1"
    by (simp add: evaluate_thresholds_def Let_def)
  ultimately show ?thesis
    by (simp add: tie_select_code tie_select_claimed tie_select_claimed_rev)
qed

text \<open>
  Claim C1, amended. For every table the sweep evaluates exactly the 576 configurations of
  the grid, in the order of the three loops: \<open>min_articles\<close> through 1, 2, 3, 5 outermost,
  the buy threshold from 0.05 up to 0.60 in the middle, the sell threshold from -0.05 down
  to -0.60 innermost. The selection returns a configuration exactly when it is viable, no
  viable configuration before it in that order has a key \<open>(accuracy, total_signals)\<close> as
  great, and none after it has a greater one: the greatest key wins, and among equal keys
  the first in the order of the loops.
\<close>

theorem sweep_selects_first_best:
  "sweep_thresholds table =
     [evaluate_thresholds table bt st m.
        m \<leftarrow> [1, 2, 3, 5],
        bt \<leftarrow> [1/20, 1/10, 3/20, 1/5, 1/4, 3/10, 7/20, 2/5, 9/20, 1/2, 11/20, 3/5],
        st \<leftarrow> [- (1/20), - (1/10), - (3/20), - (1/5), - (1/4), - (3/10), - (7/20),
                - (2/5), - (9/20), - (1/2), - (11/20), - (3/5)]]
   \<and> length (sweep_thresholds table) = 576
   \<and> (select_optimal (sweep_thresholds table) = Inr (Some opt) \<longleftrightarrow>
       (\<exists>pre post. sweep_thresholds table = pre @ opt # post
          \<and> is_viable (sweep_thresholds table) opt
          \<and> (\<forall>r\<in>set pre. is_viable (sweep_thresholds table) r
                \<longrightarrow> viable_key r < viable_key opt)
          \<and> (\<forall>r\<in>set post. is_viable (sweep_thresholds table) r
                \<longrightarrow> viable_key r \<le> viable_key opt)))"
proof -
  have grid: "sweep_thresholds table =
     [evaluate_thresholds table bt st m.
        m \<leftarrow> [1, 2, 3, 5],
        bt \<leftarrow> [1/20, 1/10, 3/20, 1/5, 1/4, 3/10, 7/20, 2/5, 9/20, 1/2, 11/20, 3/5],
        st \<leftarrow> [- (1/20), - (1/10), - (3/20), - (1/5), - (1/4), - (3/10), - (7/20),
                - (2/5), - (9/20), - (1/2), - (11/20), - (3/5)]]"
    unfolding sweep_thresholds_def buy_range_eq sell_range_eq min_articles_options_def ..
  have sel: "select_optimal (sweep_thresholds table) = Inr (Some opt) \<longleftrightarrow>
       (\<exists>pre post. sweep_thresholds table = pre @ opt # post
          \<and> is_viable (sweep_thresholds table) opt
          \<and> (\<forall>r\<in>set pre. is_viable (sweep_thresholds table) r
                \<longrightarrow> viable_key r < viable_key opt)
          \<and> (\<forall>r\<in>set post. is_viable (sweep_thresholds table) r
                \<longrightarrow> viable_key r \<le> viable_key opt))"
    using select_optimal_Some [of "sweep_thresholds table" opt]
      select_optimal_first [of "sweep_thresholds table" _ opt]
    by blast
  show ?thesis
    using grid sweep_length [of table] sel by blast
qed

theorem sweep_selects_first_best_witness:
  "select_optimal (sweep_thresholds tie_table)
     = Inr (Some (evaluate_thresholds tie_table (1 / 20) (- (1 / 10)) 1))
   \<and> (\<exists>pre post. sweep_thresholds tie_table
          = pre @ evaluate_thresholds tie_table (1 / 20) (- (1 / 10)) 1 # post
        \<and> is_viable (sweep_thresholds tie_table)
            (evaluate_thresholds tie_table (1 / 20) (- (1 / 10)) 1)
        \<and> (\<forall>r\<in>set pre. is_viable (sweep_thresholds tie_table) r
              \<longrightarrow> viable_key r < viable_key (evaluate_thresholds tie_table (1 / 20) (- (1 / 10)) 1))
        \<and> (\<forall>r\<in>set post. is_viable (sweep_thresholds tie_table) r
              \<longrightarrow> viable_key r \<le> viable_key (evaluate_thresholds tie_table (1 / 20) (- (1 / 10)) 1)))"
  using sweep_selects_first_best [of tie_table "evaluate_thresholds tie_table (1 / 20) (- (1 / 10)) 1"]
    tie_select_code
  by blast

section \<open>The Price-Change Resolver\<close>

lemma list_index_mem:
  "x \<in> set xs \<Longrightarrow> \<exists>i. list_index xs x = Inr i \<and> i < length xs \<and> xs ! i = x"
  by (induction xs) auto

lemma dict_get_key: "k \<in> fst ` set d \<Longrightarrow> dict_get d k = Inr (the (map_of d k))"
  by (auto simp: dict_get_def map_of_eq_None_iff split: option.splits)

lemma sorted_Min_hd: "sorted (x # xs) \<Longrightarrow> Min (set (x # xs)) = x"
  by (intro Min_eqI) auto

lemma sorted_filter_gt_drop:
  fixes xs :: "'a::linorder list"
  shows "sorted xs \<Longrightarrow> distinct xs \<Longrightarrow> i < length xs \<Longrightarrow>
         filter (\<lambda>d. xs ! i < d) xs = drop (Suc i) xs"
proof (induction xs arbitrary: i)
  case Nil
  then show ?case by simp
next
  case (Cons y ys)
  show ?case
  proof (cases i)
    case 0
    have "\<forall>d\<in>set ys. y < d" using Cons.prems by (auto simp: less_le)
    then have "filter (\<lambda>d. y < d) ys = ys" by (simp add: filter_id_conv)
    with 0 show ?thesis by simp
  next
    case (Suc j)
    with Cons.prems have j: "j < length ys" and mem: "ys ! j \<in> set ys" by auto
    with Cons.prems have "y < ys ! j" by (auto simp: less_le)
    with Suc Cons.IH [of j] Cons.prems j show ?thesis by simp
  qed
qed

text \<open>The forward snap of the code is the one of the specification.\<close>

lemma snap_forward:
  fixes xs :: "'a::linorder list"
  assumes "sorted xs" and "set xs = set known"
  shows "(if ref \<notin> set xs
          then (case filter (\<lambda>d. ref \<le> d) xs of [] \<Rightarrow> None | d # _ \<Rightarrow> Some d)
          else Some ref)
       = (if filter (\<lambda>d. ref \<le> d) known = [] then None
          else Some (if ref \<in> set known then ref
                     else Min (set (filter (\<lambda>d. ref \<le> d) known))))"
proof (cases "ref \<in> set xs")
  case True
  then have "filter (\<lambda>d. ref \<le> d) known \<noteq> []"
    using assms(2) by (auto simp: filter_empty_conv)
  with True assms(2) show ?thesis by simp
next
  case False
  have sets: "set (filter (\<lambda>d. ref \<le> d) known) = set (filter (\<lambda>d. ref \<le> d) xs)"
    using assms(2) by auto
  show ?thesis
  proof (cases "filter (\<lambda>d. ref \<le> d) xs")
    case Nil
    with sets have "filter (\<lambda>d. ref \<le> d) known = []" by simp
    with False Nil show ?thesis by simp
  next
    case (Cons d ds)
    have "sorted (d # ds)" using sorted_filter [of id xs "\<lambda>d. ref \<le> d"] assms(1) Cons by simp
    then have "Min (set (d # ds)) = d" by (rule sorted_Min_hd)
    moreover have "d \<in> set (filter (\<lambda>d. ref \<le> d) known)" using sets Cons by simp
    then have "filter (\<lambda>d. ref \<le> d) known \<noteq> []" by (auto simp: filter_empty_conv)
    ultimately show ?thesis using False Cons sets assms(2) by simp
  qed
qed

lemma resolver_refines:
  assumes "distinct (map fst prices)"
  shows "compute_next_day_change prices ref = Inr (resolve_spec prices ref)"
proof -
  define known where "known = map fst prices"
  define xs where "xs = sort known"
  have xs: "sorted xs" "distinct xs" "set xs = set known"
    using assms by (simp_all add: xs_def known_def)
  note snap = snap_forward [OF xs(1) xs(3), of ref]
  have unfold: "compute_next_day_change prices ref =
    (case (if ref \<notin> set xs
           then (case filter (\<lambda>d. ref \<le> d) xs of [] \<Rightarrow> None | d # _ \<Rightarrow> Some d)
           else Some ref) of
       None \<Rightarrow> Inr None
     | Some date_str \<Rightarrow>
        (case list_index xs date_str of
           Inl e \<Rightarrow> Inl e
         | Inr idx \<Rightarrow>
            if idx + 1 \<ge> length xs then Inr None
            else (case dict_get prices (xs ! idx) of
                    Inl e \<Rightarrow> Inl e
                  | Inr price_today \<Rightarrow>
                     (case dict_get prices (xs ! (idx + 1)) of
                        Inl e \<Rightarrow> Inl e
                      | Inr price_next \<Rightarrow>
                         if price_today = 0 then Inr None
                         else Inr (Some (((price_next - price_today) / price_today)
                                           * 100))))))"
    unfolding compute_next_day_change_def Let_def xs_def known_def ..
  show ?thesis
  proof (cases "filter (\<lambda>d. ref \<le> d) known = []")
    case True
    then show ?thesis
      unfolding unfold snap
      by (simp add: resolve_spec_def Let_def flip: known_def)
  next
    case False
    define cur where
      "cur = (if ref \<in> set known then ref else Min (set (filter (\<lambda>d. ref \<le> d) known)))"
    have "cur \<in> set known"
    proof (cases "ref \<in> set known")
      case True
      then show ?thesis by (simp add: cur_def)
    next
      case ref: False
      have "Min (set (filter (\<lambda>d. ref \<le> d) known)) \<in> set (filter (\<lambda>d. ref \<le> d) known)"
        using False by (intro Min_in) (auto simp: filter_empty_conv)
      then show ?thesis using ref by (simp add: cur_def)
    qed
    then obtain i where i: "list_index xs cur = Inr i" "i < length xs" "xs ! i = cur"
      using list_index_mem [of cur xs] xs(3) by auto
    have drop: "filter (\<lambda>d. cur < d) xs = drop (Suc i) xs"
      using sorted_filter_gt_drop [OF xs(1) xs(2) i(2)] i(3) by simp
    have later_set: "set (filter (\<lambda>d. cur < d) known) = set (drop (Suc i) xs)"
      using drop xs(3) by (metis set_filter)
    have snapped: "(if ref \<notin> set xs
          then (case filter (\<lambda>d. ref \<le> d) xs of [] \<Rightarrow> None | d # _ \<Rightarrow> Some d)
          else Some ref) = Some cur"
      using snap False by (simp add: cur_def)
    have cur_key: "dict_get prices cur = Inr (the (map_of prices cur))"
      using \<open>cur \<in> set known\<close> by (intro dict_get_key) (simp add: known_def)
    show ?thesis
    proof (cases "Suc i < length xs")
      case last: False
      then have "filter (\<lambda>d. cur < d) known = []"
        using later_set by (metis drop_all not_less set_empty)
      then show ?thesis
        unfolding unfold snapped using False last i
        by (simp add: resolve_spec_def Let_def flip: known_def cur_def)
    next
      case True
      then have ne: "filter (\<lambda>d. cur < d) known \<noteq> []"
        using later_set by (metis drop_eq_Nil not_less set_empty leD)
      have "sorted (drop (Suc i) xs)" using xs(1) by (simp add: sorted_wrt_drop)
      moreover have "drop (Suc i) xs = xs ! Suc i # drop (Suc (Suc i)) xs"
        using True by (simp add: Cons_nth_drop_Suc)
      ultimately have "Min (set (drop (Suc i) xs)) = xs ! Suc i"
        using sorted_Min_hd [of "xs ! Suc i" "drop (Suc (Suc i)) xs"] by simp
      then have nxt: "Min (set (filter (\<lambda>d. cur < d) known)) = xs ! Suc i"
        using later_set by simp
      have "xs ! Suc i \<in> set known" using True xs(3) nth_mem by blast
      then have nxt_key: "dict_get prices (xs ! Suc i) = Inr (the (map_of prices (xs ! Suc i)))"
        by (intro dict_get_key) (simp add: known_def)
      show ?thesis
        unfolding unfold snapped using False True i ne nxt cur_key nxt_key
        by (simp add: resolve_spec_def Let_def flip: known_def cur_def)
    qed
  qed
qed

text \<open>No access of the resolver is out of range, whatever the items of the dict are.\<close>

lemma compute_next_day_change_no_raise: "compute_next_day_change prices ref \<noteq> Inl e"
proof -
  define xs where "xs = sort (map fst prices)"
  have keys: "set xs = fst ` set prices" by (simp add: xs_def)
  define snapped where "snapped =
    (if ref \<notin> set xs
     then (case filter (\<lambda>d. ref \<le> d) xs of [] \<Rightarrow> None | d # _ \<Rightarrow> Some d)
     else Some ref)"
  have mem: "d \<in> set xs" if "snapped = Some d" for d
  proof (cases "ref \<in> set xs")
    case True
    with that show ?thesis by (simp add: snapped_def)
  next
    case False
    with that obtain ds where "filter (\<lambda>d. ref \<le> d) xs = d # ds"
      by (auto simp: snapped_def split: list.splits)
    then have "d \<in> set (filter (\<lambda>d. ref \<le> d) xs)" by simp
    then show ?thesis by simp
  qed
  have get: "dict_get prices (xs ! i) \<noteq> Inl e" if "i < length xs" for i e
    using that dict_get_key [of "xs ! i" prices] keys nth_mem [of i xs] by auto
  have unfold: "compute_next_day_change prices ref =
    (case snapped of
       None \<Rightarrow> Inr None
     | Some date_str \<Rightarrow>
        (case list_index xs date_str of
           Inl e \<Rightarrow> Inl e
         | Inr idx \<Rightarrow>
            if idx + 1 \<ge> length xs then Inr None
            else (case dict_get prices (xs ! idx) of
                    Inl e \<Rightarrow> Inl e
                  | Inr price_today \<Rightarrow>
                     (case dict_get prices (xs ! (idx + 1)) of
                        Inl e \<Rightarrow> Inl e
                      | Inr price_next \<Rightarrow>
                         if price_today = 0 then Inr None
                         else Inr (Some (((price_next - price_today) / price_today)
                                           * 100))))))"
    unfolding compute_next_day_change_def Let_def xs_def snapped_def ..
  show ?thesis
  proof (cases snapped)
    case None
    then show ?thesis by (simp add: unfold)
  next
    case (Some d)
    then obtain i where i: "list_index xs d = Inr i" "i < length xs"
      using mem list_index_mem [of d xs] by blast
    show ?thesis
    proof (cases "Suc i < length xs")
      case False
      with Some i show ?thesis by (simp add: unfold)
    next
      case True
      obtain p q where "dict_get prices (xs ! i) = Inr p" "dict_get prices (xs ! Suc i) = Inr q"
        using get [OF i(2)] get [OF True] by (meson sum.exhaust_sel sumE)
      with Some i True show ?thesis by (simp add: unfold)
    qed
  qed
qed

text \<open>
  Claim C3. On a dict (keys pairwise distinct) the resolver returns what the specification
  describes: nothing when no known date is on or after the reference date; else, from the
  reference date itself when it is known and from the earliest known date after it when it
  is not, nothing when no known date is later or when the price of that date is 0, and
  otherwise the change to the next known date in percent of the price of that date. On
  the series 2024-01-02: 100, 2024-01-03: 102 the date 2024-01-02 resolves to exactly 2.
\<close>

theorem price_change_resolver:
  "(distinct (map fst prices) \<longrightarrow>
      compute_next_day_change prices ref = Inr (resolve_spec prices ref))
   \<and> compute_next_day_change [(''2024-01-02'', 100), (''2024-01-03'', 102)] ''2024-01-02''
       = Inr (Some 2)"
proof -
  have "compute_next_day_change [(''2024-01-02'', 100), (''2024-01-03'', 102)] ''2024-01-02''
       = Inr (Some 2)"
    by code_simp
  then show ?thesis using resolver_refines [of prices ref] by blast
qed

theorem price_change_resolver_witness:
  "distinct (map fst scenario_prices)
   \<and> resolve_spec scenario_prices ''2024-01-02'' = Some 2
   \<and> compute_next_day_change scenario_prices ''2024-01-02'' = Inr (Some 2)
   \<and> compute_next_day_change scenario_prices ''2024-01-04'' = Inr None"
proof -
  have d: "distinct (map fst scenario_prices)" by (simp add: scenario_prices_def)
  have r: "resolve_spec scenario_prices ''2024-01-02'' = Some 2"
    unfolding scenario_prices_def by code_simp
  have l: "resolve_spec scenario_prices ''2024-01-04'' = None"
    unfolding scenario_prices_def by code_simp
  show ?thesis
    using d r l price_change_resolver [of scenario_prices "''2024-01-02''"]
      price_change_resolver [of scenario_prices "''2024-01-04''"]
    by simp
qed

section \<open>The Backtest Table Builder and the Auto-Tuner\<close>

lemma table_loop_no_raise: "\<exists>t. table_loop prices groups table = Inr t"
proof (induction groups arbitrary: table)
  case Nil
  show ?case by simp
next
  case (Cons g groups)
  obtain tick date_str arts where g: "g = ((tick, date_str), arts)"
    by (metis surj_pair)
  show ?case
  proof (cases "map_of prices tick")
    case None
    with g Cons.IH show ?thesis by simp
  next
    case (Some p)
    show ?thesis
    proof (cases "compute_next_day_change p date_str")
      case (Inl e)
      then show ?thesis using compute_next_day_change_no_raise by blast
    next
      case (Inr v)
      with g Some Cons.IH show ?thesis by (cases v) simp_all
    qed
  qed
qed

lemma build_backtest_table_no_raise: "\<exists>t. build_backtest_table articles prices = Inr t"
  unfolding build_backtest_table_def Let_def by (rule table_loop_no_raise)

lemma total_signals_le_length:
  "total_signals (evaluate_thresholds table bt st m) \<le> length table"
  using eval_loop_sum [of bt st m init_counts table]
  by (simp add: evaluate_thresholds_def Let_def init_counts_def)

lemma select_optimal_mem:
  assumes "select_optimal rs = Inr (Some opt)"
  shows "opt \<in> set rs \<and> is_viable rs opt"
  using select_optimal_Some [OF assms] by auto

lemma select_optimal_exists:
  assumes "\<exists>r\<in>set rs. 1 \<le> total_signals r"
  shows "\<exists>opt. select_optimal rs = Inr (Some opt)"
proof -
  have "select_optimal rs \<noteq> Inr None" using assms by (force simp: select_optimal_None)
  then show ?thesis
    using select_optimal_no_raise [of rs]
    by (metis option.exhaust sum.exhaust_sel sumE)
qed

text \<open>The four ways out of the Auto-Tuner.\<close>

lemma auto_tune_no_articles: "auto_tune cfg [] analyze fetch = Inr (False, cfg)"
  by (simp add: auto_tune_def)

lemma auto_tune_no_rows:
  assumes "collected \<noteq> []"
    and "build_backtest_table (analyze collected)
           (fetch (remdups (map art_ticker (analyze collected)))) = Inr []"
  shows "auto_tune cfg collected analyze fetch = Inr (False, cfg)"
  using assms by (simp add: auto_tune_def Let_def)

lemma auto_tune_not_viable:
  assumes "collected \<noteq> []"
    and "build_backtest_table (analyze collected)
           (fetch (remdups (map art_ticker (analyze collected)))) = Inr table"
    and "select_optimal (sweep_thresholds table) = Inr None"
  shows "auto_tune cfg collected analyze fetch = Inr (False, cfg)"
  using assms by (simp add: auto_tune_def Let_def)

lemma auto_tune_optimal:
  assumes "collected \<noteq> []"
    and "build_backtest_table (analyze collected)
           (fetch (remdups (map art_ticker (analyze collected)))) = Inr table"
    and "table \<noteq> []"
    and "select_optimal (sweep_thresholds table) = Inr (Some optimal)"
  shows "auto_tune cfg collected analyze fetch =
     (if accuracy (evaluate_thresholds table (BUY_THRESHOLD cfg) (SELL_THRESHOLD cfg)
                     (MIN_ARTICLES cfg)) < accuracy optimal
      then Inr (True, cfg\<lparr>BUY_THRESHOLD := buy_threshold optimal,
                           SELL_THRESHOLD := sell_threshold optimal,
                           MIN_ARTICLES := min_articles optimal\<rparr>)
      else Inr (False, cfg))"
  using assms by (simp add: auto_tune_def Let_def)

lemma tie_build: "build_backtest_table tie_articles tie_prices = Inr tie_table"
  by code_simp

lemma flat_build: "build_backtest_table flat_articles tie_prices = Inr flat_table"
  by code_simp

lemma flat_no_signal:
  "0 \<le> bt \<Longrightarrow> st \<le> 0 \<Longrightarrow> total_signals (evaluate_thresholds flat_table bt st m) = 0"
  by (simp add: evaluate_thresholds_def eval_loop_def eval_row_def flat_table_def
      init_counts_def Let_def)

lemma flat_select: "select_optimal (sweep_thresholds flat_table) = Inr None"
proof -
  have "total_signals r = 0" if "r \<in> set (sweep_thresholds flat_table)" for r
  proof -
    from sweep_mem [OF that] obtain bt st m where
      r: "r = evaluate_thresholds flat_table bt st m" "bt \<in> set buy_range" "st \<in> set sell_range"
      by blast
    with buy_range_pos [of bt] sell_range_neg [of st] show ?thesis
      by (simp add: flat_no_signal)
  qed
  then show ?thesis by (simp add: select_optimal_None)
qed

lemma example_first:
  "total_signals (evaluate_thresholds example_table (1 / 20) (- (1 / 20)) 1) = 2"
  by (simp add: evaluate_thresholds_def eval_loop_def eval_row_def example_table_def
      init_counts_def Let_def)

text \<open>
  Claim C8. The selection over the sweep of any table first keeps the configurations with
  at least three signals and selects among them when there is one; when there is none it
  keeps those with at least one signal and selects among them; it reports that no
  configuration is viable only when every configuration has no signal at all, and the
  Auto-Tuner then returns \<open>False\<close> with the configuration as it was, without raising.
\<close>

theorem sweep_selection_relaxes_filter:
  "(let rs = sweep_thresholds table
    in ((\<exists>r\<in>set rs. 3 \<le> total_signals r) \<longrightarrow>
          (\<exists>opt. select_optimal rs = Inr (Some opt) \<and> opt \<in> set rs \<and> 3 \<le> total_signals opt))
       \<and> ((\<forall>r\<in>set rs. total_signals r < 3) \<and> (\<exists>r\<in>set rs. 1 \<le> total_signals r) \<longrightarrow>
          (\<exists>opt. select_optimal rs = Inr (Some opt) \<and> opt \<in> set rs \<and> 1 \<le> total_signals opt))
       \<and> (select_optimal rs = Inr None \<longleftrightarrow> (\<forall>r\<in>set rs. total_signals r < 1))
       \<and> (collected \<noteq> []
            \<and> build_backtest_table (analyze collected)
                 (fetch (remdups (map art_ticker (analyze collected)))) = Inr table
            \<and> select_optimal rs = Inr None
          \<longrightarrow> auto_tune cfg collected analyze fetch = Inr (False, cfg)))"
proof -
  let ?rs = "sweep_thresholds table"
  have strict: "\<exists>opt. select_optimal ?rs = Inr (Some opt) \<and> opt \<in> set ?rs \<and> 3 \<le> total_signals opt"
    if three: "\<exists>r\<in>set ?rs. 3 \<le> total_signals r"
  proof -
    from three have "\<exists>r\<in>set ?rs. 1 \<le> total_signals r" by force
    then obtain opt where opt: "select_optimal ?rs = Inr (Some opt)"
      using select_optimal_exists by blast
    from select_optimal_mem [OF opt] three have "opt \<in> set ?rs \<and> 3 \<le> total_signals opt"
      by (simp add: is_viable_def)
    with opt show ?thesis by blast
  qed
  have relaxed: "\<exists>opt. select_optimal ?rs = Inr (Some opt) \<and> opt \<in> set ?rs \<and> 1 \<le> total_signals opt"
    if none: "\<forall>r\<in>set ?rs. total_signals r < 3" and one: "\<exists>r\<in>set ?rs. 1 \<le> total_signals r"
  proof -
    from one obtain opt where opt: "select_optimal ?rs = Inr (Some opt)"
      using select_optimal_exists by blast
    from none have "\<not> (\<exists>x\<in>set ?rs. 3 \<le> total_signals x)" by (simp add: not_le)
    with select_optimal_mem [OF opt] have "opt \<in> set ?rs \<and> 1 \<le> total_signals opt"
      by (simp add: is_viable_def)
    with opt show ?thesis by blast
  qed
  have empty: "select_optimal ?rs = Inr None \<longleftrightarrow> (\<forall>r\<in>set ?rs. total_signals r < 1)"
    by (simp add: select_optimal_None)
  have keep: "auto_tune cfg collected analyze fetch = Inr (False, cfg)"
    if "collected \<noteq> []"
      and "build_backtest_table (analyze collected)
             (fetch (remdups (map art_ticker (analyze collected)))) = Inr table"
      and "select_optimal ?rs = Inr None"
    using that by (rule auto_tune_not_viable)
  show ?thesis
    unfolding Let_def using strict relaxed empty keep by blast
qed

theorem sweep_selection_relaxes_filter_witness:
  "\<not> (\<exists>r\<in>set (sweep_thresholds example_table). 3 \<le> total_signals r)
   \<and> (\<exists>r\<in>set (sweep_thresholds example_table). 1 \<le> total_signals r)
   \<and> (\<exists>opt. select_optimal (sweep_thresholds example_table) = Inr (Some opt)
          \<and> opt \<in> set (sweep_thresholds example_table) \<and> 1 \<le> total_signals opt)
   \<and> flat_articles \<noteq> []
   \<and> build_backtest_table (id flat_articles)
        ((\<lambda>_. tie_prices) (remdups (map art_ticker (id flat_articles)))) = Inr flat_table
   \<and> select_optimal (sweep_thresholds flat_table) = Inr None
   \<and> auto_tune shipped_config flat_articles id (\<lambda>_. tie_prices) = Inr (False, shipped_config)"
proof -
  have small: "\<forall>r\<in>set (sweep_thresholds example_table). total_signals r < 3"
  proof
    fix r assume "r \<in> set (sweep_thresholds example_table)"
    from sweep_mem [OF this] obtain bt st m where
      "r = evaluate_thresholds example_table bt st m" by blast
    with total_signals_le_length [of example_table bt st m] show "total_signals r < 3"
      by (simp add: example_table_def)
  qed
  obtain post where "sweep_thresholds example_table =
     [evaluate_thresholds example_table (1 / 20) (- (1 / 20)) 1] @
      evaluate_thresholds example_table (1 / 20) (- (1 / 10)) 1 # post"
    using sweep_head [of example_table] by blast
  then have "evaluate_thresholds example_table (1 / 20) (- (1 / 20)) 1
               \<in> set (sweep_thresholds example_table)" by simp
  then have some: "\<exists>r\<in>set (sweep_thresholds example_table). 1 \<le> total_signals r"
    using example_first by force
  have ne: "flat_articles \<noteq> []" by (simp add: flat_articles_def)
  have built: "build_backtest_table (id flat_articles)
        ((\<lambda>_. tie_prices) (remdups (map art_ticker (id flat_articles)))) = Inr flat_table"
    by (simp add: flat_build)
  have none: "\<not> (\<exists>r\<in>set (sweep_thresholds example_table). 3 \<le> total_signals r)"
    using small by (simp add: not_le)
  show ?thesis
    using small none some ne built flat_select
      sweep_selection_relaxes_filter [of example_table "[]" id "\<lambda>_. tie_prices" shipped_config]
      sweep_selection_relaxes_filter
        [of flat_table flat_articles id "\<lambda>_. tie_prices" shipped_config]
    unfolding Let_def by blast
qed

text \<open>
  Claim C4. The Auto-Tuner never raises. With no article, no row or no viable
  configuration it returns \<open>False\<close> and the configuration it was given. Otherwise it
  returns whether the accuracy of the selected configuration is strictly greater than the
  accuracy of the live one, and the live thresholds are overwritten by the selected ones
  exactly in that case: the flag is \<open>True\<close> only with the three values replaced, and
  \<open>False\<close> only with the configuration unchanged.
\<close>

theorem auto_tune_updates_iff_better:
  "(let articles = analyze collected;
        built = build_backtest_table articles (fetch (remdups (map art_ticker articles)));
        result = auto_tune cfg collected analyze fetch
    in (collected = [] \<longrightarrow> result = Inr (False, cfg))
       \<and> (collected \<noteq> [] \<and> built = Inr [] \<longrightarrow> result = Inr (False, cfg))
       \<and> (\<forall>table. collected \<noteq> [] \<and> built = Inr table
             \<and> select_optimal (sweep_thresholds table) = Inr None
            \<longrightarrow> result = Inr (False, cfg))
       \<and> (\<forall>table optimal. collected \<noteq> [] \<and> built = Inr table \<and> table \<noteq> []
             \<and> select_optimal (sweep_thresholds table) = Inr (Some optimal)
            \<longrightarrow> (let current = evaluate_thresholds table (BUY_THRESHOLD cfg)
                                  (SELL_THRESHOLD cfg) (MIN_ARTICLES cfg)
                 in result =
                      Inr (accuracy current < accuracy optimal,
                           if accuracy current < accuracy optimal
                           then cfg\<lparr>BUY_THRESHOLD := buy_threshold optimal,
                                    SELL_THRESHOLD := sell_threshold optimal,
                                    MIN_ARTICLES := min_articles optimal\<rparr>
                           else cfg)))
       \<and> (\<exists>flag cfg'. result = Inr (flag, cfg') \<and> (\<not> flag \<longrightarrow> cfg' = cfg)
             \<and> (flag \<longrightarrow> (\<exists>table optimal. built = Inr table
                    \<and> select_optimal (sweep_thresholds table) = Inr (Some optimal)
                    \<and> accuracy (evaluate_thresholds table (BUY_THRESHOLD cfg)
                                  (SELL_THRESHOLD cfg) (MIN_ARTICLES cfg))
                        < accuracy optimal
                    \<and> cfg' = cfg\<lparr>BUY_THRESHOLD := buy_threshold optimal,
                                   SELL_THRESHOLD := sell_threshold optimal,
                                   MIN_ARTICLES := min_articles optimal\<rparr>))))"
proof -
  define articles where "articles = analyze collected"
  define built where
    "built = build_backtest_table articles (fetch (remdups (map art_ticker articles)))"
  define result where "result = auto_tune cfg collected analyze fetch"
  define upd where "upd optimal = cfg\<lparr>BUY_THRESHOLD := buy_threshold optimal,
                                    SELL_THRESHOLD := sell_threshold optimal,
                                    MIN_ARTICLES := min_articles optimal\<rparr>"
    for optimal :: eval_result
  define cur where "cur table = accuracy (evaluate_thresholds table (BUY_THRESHOLD cfg)
                                  (SELL_THRESHOLD cfg) (MIN_ARTICLES cfg))" for table
  have a: "collected = [] \<longrightarrow> result = Inr (False, cfg)"
    by (simp add: result_def auto_tune_no_articles)
  have b: "collected \<noteq> [] \<and> built = Inr [] \<longrightarrow> result = Inr (False, cfg)"
    unfolding result_def built_def articles_def using auto_tune_no_rows by blast
  have c: "\<forall>table. collected \<noteq> [] \<and> built = Inr table
             \<and> select_optimal (sweep_thresholds table) = Inr None
            \<longrightarrow> result = Inr (False, cfg)"
    unfolding result_def built_def articles_def using auto_tune_not_viable by blast
  have d: "\<forall>table optimal. collected \<noteq> [] \<and> built = Inr table \<and> table \<noteq> []
             \<and> select_optimal (sweep_thresholds table) = Inr (Some optimal)
            \<longrightarrow> result = Inr (cur table < accuracy optimal,
                           if cur table < accuracy optimal then upd optimal else cfg)"
    unfolding result_def built_def articles_def cur_def upd_def
    by (simp add: auto_tune_optimal)
  let ?G = "\<exists>flag cfg'. result = Inr (flag, cfg') \<and> (\<not> flag \<longrightarrow> cfg' = cfg)
             \<and> (flag \<longrightarrow> (\<exists>table optimal. built = Inr table
                    \<and> select_optimal (sweep_thresholds table) = Inr (Some optimal)
                    \<and> cur table < accuracy optimal \<and> cfg' = upd optimal))"
  have keep: ?G if "result = Inr (False, cfg)"
    using that by (intro exI [of _ False] exI [of _ cfg]) simp
  have e: ?G
  proof (cases "collected = []")
    case True
    with a show ?thesis by (intro keep) simp
  next
    case False
    obtain table where table: "built = Inr table"
      unfolding built_def using build_backtest_table_no_raise by blast
    show ?thesis
    proof (cases "table = []")
      case True
      with b False table show ?thesis by (intro keep) simp
    next
      case ne: False
      show ?thesis
      proof (cases "select_optimal (sweep_thresholds table) = Inr None")
        case True
        with c False table show ?thesis by (intro keep) simp
      next
        case some: False
        then obtain optimal where
          optimal: "select_optimal (sweep_thresholds table) = Inr (Some optimal)"
          using select_optimal_no_raise [of "sweep_thresholds table"]
          by (metis option.exhaust sum.exhaust_sel sumE)
        with d False table ne have res: "result = Inr (cur table < accuracy optimal,
                           if cur table < accuracy optimal then upd optimal else cfg)"
          by blast
        show ?thesis
        proof (cases "cur table < accuracy optimal")
          case True
          with res table optimal show ?thesis
            by (intro exI [of _ True] exI [of _ "upd optimal"]) auto
        next
          case False
          with res show ?thesis by (intro keep) simp
        qed
      qed
    qed
  qed
  show ?thesis
    using a b c d e
    unfolding Let_def articles_def built_def result_def upd_def cur_def by blast
qed

theorem auto_tune_updates_iff_better_witness:
  "tie_articles \<noteq> []
   \<and> build_backtest_table (id tie_articles)
        ((\<lambda>_. tie_prices) (remdups (map art_ticker (id tie_articles)))) = Inr tie_table
   \<and> tie_table \<noteq> []
   \<and> select_optimal (sweep_thresholds tie_table)
       = Inr (Some (evaluate_thresholds tie_table (1 / 20) (- (1 / 10)) 1))
   \<and> auto_tune weak_config tie_articles id (\<lambda>_. tie_prices)
       = Inr (True, \<lparr>BUY_THRESHOLD = 1 / 20, SELL_THRESHOLD = - (1 / 10), MIN_ARTICLES = 1\<rparr>)
   \<and> auto_tune weak_config [] id (\<lambda>_. tie_prices) = Inr (False, weak_config)"
proof -
  have ne: "tie_articles \<noteq> []" by (simp add: tie_articles_def)
  have built: "build_backtest_table (id tie_articles)
        ((\<lambda>_. tie_prices) (remdups (map art_ticker (id tie_articles)))) = Inr tie_table"
    by (simp add: tie_build)
  have rows: "tie_table \<noteq> []" by (simp add: tie_table_def)
  have cur: "accuracy (evaluate_thresholds tie_table (BUY_THRESHOLD weak_config)
               (SELL_THRESHOLD weak_config) (MIN_ARTICLES weak_config)) = 1 / 2"
    using tie_first by (simp add: weak_config_def viable_key_def)
  have opt: "accuracy (evaluate_thresholds tie_table (1 / 20) (- (1 / 10)) 1) = 2 / 3"
    using tie_code by (simp add: viable_key_def)
  have cfg: "buy_threshold (evaluate_thresholds tie_table (1 / 20) (- (1 / 10)) 1) = 1 / 20
     \<and> sell_threshold (evaluate_thresholds tie_table (1 / 20) (- (1 / 10)) 1) = - (1 / 10)
     \<and> min_articles (evaluate_thresholds tie_table (1 / 20) (- (1 / 10)) 1) = 1"
    by (simp add: evaluate_thresholds_def Let_def)
  have "auto_tune weak_config tie_articles id (\<lambda>_. tie_prices)
       = Inr (True, \<lparr>BUY_THRESHOLD = 1 / 20, SELL_THRESHOLD = - (1 / 10), MIN_ARTICLES = 1\<rparr>)"
    using auto_tune_updates_iff_better [of id tie_articles "\<lambda>_. tie_prices" weak_config]
      ne built rows tie_select_code cur opt cfg
    unfolding Let_def by (simp add: weak_config_def)
  moreover have "auto_tune weak_config [] id (\<lambda>_. tie_prices) = Inr (False, weak_config)"
    using auto_tune_updates_iff_better [of id "[]" "\<lambda>_. tie_prices" weak_config]
    unfolding Let_def by simp
  ultimately show ?thesis using ne built rows tie_select_code by simp
qed

section \<open>The Signal Aggregator\<close>

lemma agg_step_diluted: "diluted art \<Longrightarrow> agg_step s art = s"
  by (simp add: agg_step_def diluted_def Let_def)

lemma agg_step_sums:
  "\<not> diluted art \<Longrightarrow>
   weighted_sum (agg_step s art) = weighted_sum s + art_score art * art_conf art
   \<and> weight_total (agg_step s art) = weight_total s + art_conf art"
  by (auto simp: agg_step_def diluted_def Let_def)

lemma agg_loop_filter:
  "foldl agg_step s arts = foldl agg_step s (filter (\<lambda>a. \<not> diluted a) arts)"
  by (induction arts arbitrary: s) (simp_all add: agg_step_diluted)

lemma agg_loop_sums:
  "weighted_sum (foldl agg_step s arts)
     = weighted_sum s + (\<Sum>a\<leftarrow>filter (\<lambda>a. \<not> diluted a) arts. art_score a * art_conf a)
   \<and> weight_total (foldl agg_step s arts)
     = weight_total s + (\<Sum>a\<leftarrow>filter (\<lambda>a. \<not> diluted a) arts. art_conf a)"
proof (induction arts arbitrary: s)
  case Nil
  show ?case by simp
next
  case (Cons a arts)
  show ?case
  proof (cases "diluted a")
    case True
    then show ?thesis using Cons.IH [of s] by (simp add: agg_step_diluted)
  next
    case False
    then show ?thesis using Cons.IH [of "agg_step s a"] agg_step_sums [of a s] by simp
  qed
qed

lemma ticker_signal_count:
  "sig_article_count (ticker_signal cfg tick arts) = int (length arts)"
  by (simp add: ticker_signal_def empty_signal_def Let_def)

lemma ticker_signal_signal:
  "arts \<noteq> [] \<Longrightarrow>
   signal (ticker_signal cfg tick arts) =
     (if avg_score arts > BUY_THRESHOLD cfg \<and> int (length arts) \<ge> MIN_ARTICLES cfg
      then ''BUY''
      else if avg_score arts < SELL_THRESHOLD cfg \<and> int (length arts) \<ge> MIN_ARTICLES cfg
      then ''SELL'' else ''HOLD'')"
  by (simp add: ticker_signal_def avg_score_def Let_def)

lemma ticker_signal_score:
  "arts \<noteq> [] \<Longrightarrow> score (ticker_signal cfg tick arts) = py_round (avg_score arts) 3"
  by (simp add: ticker_signal_def avg_score_def Let_def)

lemma neutral_diluted: "diluted neutral_article"
  by (simp add: diluted_def neutral_article_def art_score_def art_conf_def
      dict_get_default_def SENTIMENT_SCORES_def)

lemma neutral_avg: "avg_score [neutral_article] = 0"
  using agg_step_diluted [OF neutral_diluted, of init_agg]
  by (simp add: avg_score_def init_agg_def)

lemma py_round_0: "py_round 0 n = 0"
  by (simp add: py_round_def)

lemma mixed_avg: "avg_score mixed_articles = 1 / 2"
  by (simp add: avg_score_def mixed_articles_def agg_step_def init_agg_def art_score_def
      art_conf_def dict_get_default_def SENTIMENT_SCORES_def Let_def)

text \<open>Grouping by a key, then reading one group, is filtering by the key.\<close>

lemma map_of_dict_append:
  "map_of (dict_append g k v) k'
     = (if k' = k then Some (dict_get_default g k [] @ [v]) else map_of g k')"
  by (induction g k v rule: dict_append.induct) (auto simp: dict_get_default_def)

lemma dict_get_default_group:
  "dict_get_default (foldl (\<lambda>g x. dict_append g (key x) x) g xs) k []
     = dict_get_default g k [] @ filter (\<lambda>x. key x = k) xs"
proof (induction xs arbitrary: g)
  case Nil
  show ?case by simp
next
  case (Cons x xs)
  have "dict_get_default (dict_append g (key x) x) k []
          = dict_get_default g k [] @ (if key x = k then [x] else [])"
    by (simp add: dict_get_default_def map_of_dict_append)
  then show ?case using Cons.IH [of "dict_append g (key x) x"] by simp
qed

lemma dict_set_new: "k \<notin> fst ` set d \<Longrightarrow> dict_set d k v = d @ [(k, v)]"
  by (induction d k v rule: dict_set.induct) auto

lemma foldl_dict_set_distinct:
  "distinct ks \<Longrightarrow> set ks \<inter> fst ` set d = {} \<Longrightarrow>
   foldl (\<lambda>d k. dict_set d k (f k)) d ks = d @ map (\<lambda>k. (k, f k)) ks"
proof (induction ks arbitrary: d)
  case Nil
  show ?case by simp
next
  case (Cons k ks)
  from Cons.prems have new: "k \<notin> fst ` set d" by auto
  have "set ks \<inter> fst ` set (d @ [(k, f k)]) = {}" using Cons.prems by auto
  with Cons.IH [of "d @ [(k, f k)]"] Cons.prems(1) show ?case
    by (simp add: dict_set_new [OF new])
qed

lemma ALL_TICKERS_eq:
  "ALL_TICKERS = [''AAPL'', ''MSFT'', ''GOOG'', ''AMZN'', ''TSLA'', ''NVDA'', ''META'', ''JPM'',
      ''V'', ''JNJ'', ''GC=F'', ''CL=F'', ''SI=F'', ''BTC-USD'', ''ETH-USD'']"
  by (simp add: ALL_TICKERS_def STOCKS_def COMMODITIES_def CRYPTO_def)

lemma distinct_ALL_TICKERS: "distinct ALL_TICKERS"
  unfolding ALL_TICKERS_eq by simp

lemma generate_signals_map:
  "generate_signals cfg articles =
     map (\<lambda>t. (t, ticker_signal cfg t (filter (\<lambda>a. art_ticker a = t) articles))) ALL_TICKERS"
proof -
  have "dict_get_default (foldl (\<lambda>g art. dict_append g (art_ticker art) art) [] articles) t []
          = filter (\<lambda>a. art_ticker a = t) articles" for t
    using dict_get_default_group [of art_ticker "[]" articles t]
    by (simp add: dict_get_default_def)
  then show ?thesis
    unfolding generate_signals_def Let_def
    using foldl_dict_set_distinct [OF distinct_ALL_TICKERS, of "[]"]
    by simp
qed

lemma ticker_signal_empty: "ticker_signal cfg t [] = empty_signal t"
  by (simp add: ticker_signal_def)

lemma generate_signals_lookup:
  "map_of (generate_signals cfg articles) t =
     (if t \<in> set ALL_TICKERS
      then Some (ticker_signal cfg t (filter (\<lambda>a. art_ticker a = t) articles))
      else None)"
  unfolding generate_signals_map
  by (simp add: map_of_map_restrict restrict_map_def)

lemma generate_signals_keys: "map fst (generate_signals cfg articles) = ALL_TICKERS"
  unfolding generate_signals_map by (simp add: comp_def)

lemma neutral_low_diluted:
  "art_sentiment a = Some ''neutral'' \<Longrightarrow> art_confidence a = Some (4 / 10) \<Longrightarrow> diluted a"
  by (simp add: diluted_def art_score_def art_conf_def dict_get_default_def
      SENTIMENT_SCORES_def)

lemma diluted_only_avg: "diluted a \<Longrightarrow> avg_score [a] = 0"
  using agg_step_diluted [of a init_agg] by (simp add: avg_score_def init_agg_def)

text \<open>
  The shipped configuration has \<open>SELL_THRESHOLD \<le> 0 \<le> BUY_THRESHOLD\<close>, and the Auto-Tuner
  keeps it so: the grid has positive buy and negative sell thresholds only.
\<close>

lemma auto_tune_keeps_signs:
  assumes "auto_tune cfg collected analyze fetch = Inr (flag, cfg')"
    and "SELL_THRESHOLD cfg \<le> 0" and "0 \<le> BUY_THRESHOLD cfg"
  shows "SELL_THRESHOLD cfg' \<le> 0 \<and> 0 \<le> BUY_THRESHOLD cfg'"
proof (cases "cfg' = cfg")
  case True
  with assms show ?thesis by simp
next
  case False
  with assms(1) obtain table optimal where
    opt: "select_optimal (sweep_thresholds table) = Inr (Some optimal)"
    and cfg': "cfg' = cfg\<lparr>BUY_THRESHOLD := buy_threshold optimal,
                          SELL_THRESHOLD := sell_threshold optimal,
                          MIN_ARTICLES := min_articles optimal\<rparr>"
    by (auto simp: auto_tune_def Let_def split: if_splits sum.splits option.splits)
  from select_optimal_mem [OF opt] have "optimal \<in> set (sweep_thresholds table)" by simp
  from sweep_mem [OF this] obtain bt st m where
    "optimal = evaluate_thresholds table bt st m" "bt \<in> set buy_range" "st \<in> set sell_range"
    by blast
  with buy_range_pos [of bt] sell_range_neg [of st] cfg' show ?thesis
    by (simp add: evaluate_thresholds_def Let_def)
qed

lemma live_config_signs:
  "live_config cfg \<Longrightarrow> SELL_THRESHOLD cfg \<le> 0 \<and> 0 \<le> BUY_THRESHOLD cfg"
proof (induction rule: live_config.induct)
  case shipped
  show ?case by (simp add: shipped_config_def)
next
  case (tuned cfg collected analyze fetch flag cfg')
  then show ?case using auto_tune_keeps_signs by blast
qed

text \<open>
  Claim C5. The loop over the articles of one ticker gives the same state as the loop
  over the articles that are not diluted (polarity 0 and confidence below 0.7): they enter
  neither the weighted sum nor the weight total, while \<open>article_count\<close> counts every
  article. In particular a watchlist asset whose only article is neutral with confidence
  0.4 gets score 0 and \<open>article_count\<close> 1, and the signal HOLD under every configuration
  the program can be in (the shipped one and every one the Auto-Tuner installs), and more
  generally under every configuration with \<open>SELL_THRESHOLD \<le> 0 \<le> BUY_THRESHOLD\<close>.
\<close>

theorem dilution_filter:
  "(let kept = filter (\<lambda>a. \<not> diluted a) arts;
        s = foldl agg_step init_agg arts
    in s = foldl agg_step init_agg kept
       \<and> weighted_sum s = (\<Sum>a\<leftarrow>kept. art_score a * art_conf a)
       \<and> weight_total s = (\<Sum>a\<leftarrow>kept. art_conf a)
       \<and> sig_article_count (ticker_signal cfg tick arts) = int (length arts))
   \<and> (tick \<in> set ALL_TICKERS \<and> filter (\<lambda>x. art_ticker x = tick) articles = [a]
        \<and> art_sentiment a = Some ''neutral'' \<and> art_confidence a = Some (4 / 10)
      \<longrightarrow> (\<exists>e. map_of (generate_signals cfg articles) tick = Some e
             \<and> score e = 0 \<and> sig_article_count e = 1
             \<and> (live_config cfg \<or> SELL_THRESHOLD cfg \<le> 0 \<and> 0 \<le> BUY_THRESHOLD cfg
                  \<longrightarrow> signal e = ''HOLD'')))"
proof -
  let ?kept = "filter (\<lambda>a. \<not> diluted a) arts" and ?s = "foldl agg_step init_agg arts"
  have loop: "?s = foldl agg_step init_agg ?kept"
    by (rule agg_loop_filter)
  have sums: "weighted_sum ?s = (\<Sum>a\<leftarrow>?kept. art_score a * art_conf a)
              \<and> weight_total ?s = (\<Sum>a\<leftarrow>?kept. art_conf a)"
    using agg_loop_sums [of init_agg arts] by (simp add: init_agg_def)
  have count: "sig_article_count (ticker_signal cfg tick arts) = int (length arts)"
    by (rule ticker_signal_count)
  have scenario: "\<exists>e. map_of (generate_signals cfg articles) tick = Some e
             \<and> score e = 0 \<and> sig_article_count e = 1
             \<and> (live_config cfg \<or> SELL_THRESHOLD cfg \<le> 0 \<and> 0 \<le> BUY_THRESHOLD cfg
                  \<longrightarrow> signal e = ''HOLD'')"
    if "tick \<in> set ALL_TICKERS" "filter (\<lambda>x. art_ticker x = tick) articles = [a]"
      "art_sentiment a = Some ''neutral''" "art_confidence a = Some (4 / 10)"
  proof -
    have avg: "avg_score [a] = 0"
      using that(3,4) by (intro diluted_only_avg neutral_low_diluted)
    have e: "map_of (generate_signals cfg articles) tick = Some (ticker_signal cfg tick [a])"
      using that(1,2) by (simp add: generate_signals_lookup)
    have "score (ticker_signal cfg tick [a]) = 0"
      by (simp add: ticker_signal_score avg py_round_0)
    moreover have "sig_article_count (ticker_signal cfg tick [a]) = 1"
      by (simp add: ticker_signal_count)
    moreover have "signal (ticker_signal cfg tick [a]) = ''HOLD''"
      if "live_config cfg \<or> SELL_THRESHOLD cfg \<le> 0 \<and> 0 \<le> BUY_THRESHOLD cfg"
    proof -
      from that have "SELL_THRESHOLD cfg \<le> 0 \<and> 0 \<le> BUY_THRESHOLD cfg"
        using live_config_signs by blast
      then show ?thesis by (simp add: ticker_signal_signal avg)
    qed
    ultimately show ?thesis using e by blast
  qed
  show ?thesis
    unfolding Let_def using loop sums count scenario by blast
qed

theorem dilution_filter_witness:
  "''AAPL'' \<in> set ALL_TICKERS
   \<and> filter (\<lambda>x. art_ticker x = ''AAPL'') [neutral_article, stray_article] = [neutral_article]
   \<and> art_sentiment neutral_article = Some ''neutral''
   \<and> art_confidence neutral_article = Some (4 / 10)
   \<and> live_config shipped_config
   \<and> (\<exists>e. map_of (generate_signals shipped_config [neutral_article, stray_article]) ''AAPL''
            = Some e
          \<and> score e = 0 \<and> sig_article_count e = 1 \<and> signal e = ''HOLD'')"
proof -
  have t: "''AAPL'' \<in> set ALL_TICKERS" by (simp add: ALL_TICKERS_eq)
  have f: "filter (\<lambda>x. art_ticker x = ''AAPL'') [neutral_article, stray_article]
             = [neutral_article]"
    by (simp add: neutral_article_def stray_article_def)
  have n: "art_sentiment neutral_article = Some ''neutral''
           \<and> art_confidence neutral_article = Some (4 / 10)"
    by (simp add: neutral_article_def)
  have c: "live_config shipped_config"
    by (rule live_config.shipped)
  show ?thesis
    using t f n c
      dilution_filter [of "[neutral_article]" shipped_config "''AAPL''"
        "[neutral_article, stray_article]" neutral_article]
    by blast
qed

text \<open>
  Claim C6 as it is worded assigns HOLD to a score in the overlap of crossed thresholds.
  With \<open>BUY_THRESHOLD = 0.2\<close>, \<open>SELL_THRESHOLD = 0.8\<close> and the two articles of the
  aggregator scenario (score 0.5) the code assigns BUY.
\<close>

theorem crossed_thresholds_counterexample:
  "\<not> SELL_THRESHOLD crossed_config < BUY_THRESHOLD crossed_config
   \<and> BUY_THRESHOLD crossed_config < avg_score mixed_articles
   \<and> avg_score mixed_articles < SELL_THRESHOLD crossed_config
   \<and> map_option signal (map_of (generate_signals crossed_config mixed_articles) ''AAPL'')
       = Some ''BUY''
   \<and> ''BUY'' \<noteq> ''HOLD''"
proof -
  have "filter (\<lambda>a. art_ticker a = ''AAPL'') mixed_articles = mixed_articles"
    by (simp add: mixed_articles_def)
  moreover have "mixed_articles \<noteq> []" by (simp add: mixed_articles_def)
  moreover have "int (length mixed_articles) = 2" by (simp add: mixed_articles_def)
  ultimately have "map_option signal (map_of (generate_signals crossed_config mixed_articles)
      ''AAPL'') = Some ''BUY''"
    by (simp add: generate_signals_lookup ALL_TICKERS_eq ticker_signal_signal mixed_avg
        crossed_config_def)
  then show ?thesis by (simp add: mixed_avg crossed_config_def)
qed

text \<open>
  Claim C6, amended. Whatever the order of the two thresholds, an asset with articles whose
  weighted score is greater than \<open>BUY_THRESHOLD\<close> and less than \<open>SELL_THRESHOLD\<close> is
  assigned BUY when its article count reaches \<open>MIN_ARTICLES\<close>, because the BUY branch is
  tested first and the SELL branch is its \<^verbatim>\<open>elif\<close>; it is assigned HOLD only when the
  article count is below \<open>MIN_ARTICLES\<close>.
\<close>

theorem crossed_thresholds_buy_first:
  "(arts \<noteq> [] \<and> BUY_THRESHOLD cfg < avg_score arts \<and> avg_score arts < SELL_THRESHOLD cfg
      \<longrightarrow> signal (ticker_signal cfg tick arts)
            = (if MIN_ARTICLES cfg \<le> int (length arts) then ''BUY'' else ''HOLD''))
   \<and> (tick \<in> set ALL_TICKERS \<and> filter (\<lambda>a. art_ticker a = tick) articles = arts
        \<and> arts \<noteq> [] \<and> BUY_THRESHOLD cfg < avg_score arts
        \<and> avg_score arts < SELL_THRESHOLD cfg
      \<longrightarrow> map_option signal (map_of (generate_signals cfg articles) tick)
            = Some (if MIN_ARTICLES cfg \<le> int (length arts) then ''BUY'' else ''HOLD''))"
  by (simp add: generate_signals_lookup ticker_signal_signal)

theorem crossed_thresholds_buy_first_witness:
  "''AAPL'' \<in> set ALL_TICKERS
   \<and> filter (\<lambda>a. art_ticker a = ''AAPL'') mixed_articles = mixed_articles
   \<and> mixed_articles \<noteq> []
   \<and> BUY_THRESHOLD crossed_config < avg_score mixed_articles
   \<and> avg_score mixed_articles < SELL_THRESHOLD crossed_config
   \<and> MIN_ARTICLES crossed_config \<le> int (length mixed_articles)
   \<and> signal (ticker_signal crossed_config ''AAPL'' mixed_articles) = ''BUY''"
proof -
  have t: "''AAPL'' \<in> set ALL_TICKERS" by (simp add: ALL_TICKERS_eq)
  have f: "filter (\<lambda>a. art_ticker a = ''AAPL'') mixed_articles = mixed_articles"
    by (simp add: mixed_articles_def)
  have n: "mixed_articles \<noteq> []" "MIN_ARTICLES crossed_config \<le> int (length mixed_articles)"
    by (simp_all add: mixed_articles_def crossed_config_def)
  have o: "BUY_THRESHOLD crossed_config < avg_score mixed_articles"
    "avg_score mixed_articles < SELL_THRESHOLD crossed_config"
    by (simp_all add: mixed_avg crossed_config_def)
  show ?thesis
    using t f n o
      crossed_thresholds_buy_first [of mixed_articles crossed_config "''AAPL''" mixed_articles]
    by simp
qed

text \<open>
  Claim C10. The result of \<^verbatim>\<open>generate_signals\<close> has exactly the tickers of
  \<open>ALL_TICKERS\<close> as keys, each once and in that order; the entry of a ticker is computed
  from the articles of that ticker, and is the fixed HOLD placeholder when there is none;
  the ticker of an article outside the watchlist is not a key, and removing such articles
  from the input does not change the result.
\<close>

theorem signals_keyed_by_watchlist:
  "map fst (generate_signals cfg articles) = ALL_TICKERS
   \<and> distinct ALL_TICKERS
   \<and> (\<forall>t\<in>set ALL_TICKERS.
         map_of (generate_signals cfg articles) t
           = Some (ticker_signal cfg t (filter (\<lambda>a. art_ticker a = t) articles)))
   \<and> (\<forall>t\<in>set ALL_TICKERS. (\<forall>a\<in>set articles. art_ticker a \<noteq> t)
         \<longrightarrow> map_of (generate_signals cfg articles) t = Some (empty_signal t))
   \<and> (\<forall>a\<in>set articles. art_ticker a \<notin> set ALL_TICKERS
         \<longrightarrow> map_of (generate_signals cfg articles) (art_ticker a) = None)
   \<and> generate_signals cfg articles
       = generate_signals cfg (filter (\<lambda>a. art_ticker a \<in> set ALL_TICKERS) articles)"
proof -
  have empty: "map_of (generate_signals cfg articles) t = Some (empty_signal t)"
    if "t \<in> set ALL_TICKERS" "\<forall>a\<in>set articles. art_ticker a \<noteq> t" for t
  proof -
    from that(2) have "filter (\<lambda>a. art_ticker a = t) articles = []"
      by (simp add: filter_empty_conv)
    with that(1) show ?thesis by (simp add: generate_signals_lookup ticker_signal_empty)
  qed
  have ignore: "generate_signals cfg articles
       = generate_signals cfg (filter (\<lambda>a. art_ticker a \<in> set ALL_TICKERS) articles)"
  proof -
    have "filter (\<lambda>a. art_ticker a = t)
            (filter (\<lambda>a. art_ticker a \<in> set ALL_TICKERS) articles)
          = filter (\<lambda>a. art_ticker a = t) articles" if "t \<in> set ALL_TICKERS" for t
      using that by (induction articles) auto
    then show ?thesis unfolding generate_signals_map by simp
  qed
  have look: "\<forall>t\<in>set ALL_TICKERS.
         map_of (generate_signals cfg articles) t
           = Some (ticker_signal cfg t (filter (\<lambda>a. art_ticker a = t) articles))"
    by (simp add: generate_signals_lookup)
  have stray: "\<forall>a\<in>set articles. art_ticker a \<notin> set ALL_TICKERS
         \<longrightarrow> map_of (generate_signals cfg articles) (art_ticker a) = None"
    by (simp add: generate_signals_lookup)
  show ?thesis
    using generate_signals_keys [of cfg articles] distinct_ALL_TICKERS look empty stray ignore
    by blast
qed

theorem signals_keyed_by_watchlist_witness:
  "''MSFT'' \<in> set ALL_TICKERS
   \<and> art_ticker stray_article \<notin> set ALL_TICKERS
   \<and> map fst (generate_signals shipped_config [neutral_article, stray_article]) = ALL_TICKERS
   \<and> map_of (generate_signals shipped_config [neutral_article, stray_article]) ''MSFT''
       = Some (empty_signal ''MSFT'')
   \<and> map_of (generate_signals shipped_config [neutral_article, stray_article])
       (art_ticker stray_article) = None
   \<and> generate_signals shipped_config [neutral_article, stray_article]
       = generate_signals shipped_config [neutral_article]"
proof -
  have m: "''MSFT'' \<in> set ALL_TICKERS" by (simp add: ALL_TICKERS_eq)
  have z: "art_ticker stray_article \<notin> set ALL_TICKERS"
    by (simp add: ALL_TICKERS_eq stray_article_def)
  have a: "art_ticker neutral_article \<in> set ALL_TICKERS"
    by (simp add: ALL_TICKERS_eq neutral_article_def)
  have n: "\<forall>a\<in>set [neutral_article, stray_article]. art_ticker a \<noteq> ''MSFT''"
    by (simp add: neutral_article_def stray_article_def)
  have filt: "filter (\<lambda>a. art_ticker a \<in> set ALL_TICKERS) [neutral_article, stray_article]
               = [neutral_article]"
    using a z by simp
  have s: "stray_article \<in> set [neutral_article, stray_article]" by simp
  note all = signals_keyed_by_watchlist [of shipped_config "[neutral_article, stray_article]"]
  from all have "generate_signals shipped_config [neutral_article, stray_article]
       = generate_signals shipped_config
           (filter (\<lambda>a. art_ticker a \<in> set ALL_TICKERS) [neutral_article, stray_article])"
    by blast
  then have same: "generate_signals shipped_config [neutral_article, stray_article]
       = generate_signals shipped_config [neutral_article]"
    unfolding filt .
  show ?thesis
    using m z n s same all by blast
qed

end
